theory Spec2Isabelle
  imports Main "HOL-Library.AList"
begin

section \<open>Python values used by the source\<close>

subsection \<open>Strings\<close>

text \<open>
  A Python \<open>str\<close> is a sequence of Unicode code points, and \<open>len\<close>, slicing and
  the substring test count code points. The keyword tables of the source are Chinese,
  so a string is modelled as the list of its code points; \<open>ascii\<close> embeds the
  ASCII literals of the source (dictionary keys, tag values).
\<close>

type_synonym ustr = "nat list"

definition ascii :: "string \<Rightarrow> ustr" where
  "ascii s = map of_char s"

text \<open>\<open>starts_with w s\<close> is \<open>s.startswith(w)\<close>; \<open>substr w s\<close> is the test \<open>w in s\<close>
  of two strings, scanning the start positions from the left.\<close>

fun starts_with :: "'a list \<Rightarrow> 'a list \<Rightarrow> bool" where
  "starts_with [] s = True"
| "starts_with (a # w) [] = False"
| "starts_with (a # w) (b # s) = (a = b \<and> starts_with w s)"

fun substr :: "'a list \<Rightarrow> 'a list \<Rightarrow> bool" where
  "substr w [] = (w = [])"
| "substr w (c # s) = (starts_with w (c # s) \<or> substr w s)"

text \<open>\<open>any(word in s for word in words)\<close>.\<close>

definition any_in :: "ustr list \<Rightarrow> ustr \<Rightarrow> bool" where
  "any_in words s = list_ex (\<lambda>word. substr word s) words"

text \<open>
  \<open>str.lower()\<close> belongs to the Python runtime, not to the repository: it replaces
  every code point by the code points of its lowercase mapping, which may depend on the
  neighbours (the final sigma). The mapping is a parameter \<open>lc before c after\<close>.
\<close>

type_synonym lowercase = "ustr \<Rightarrow> nat \<Rightarrow> ustr \<Rightarrow> ustr"

fun lower_from :: "lowercase \<Rightarrow> ustr \<Rightarrow> ustr \<Rightarrow> ustr" where
  "lower_from lc before [] = []"
| "lower_from lc before (c # after) = lc before c after @ lower_from lc (before @ [c]) after"

definition lower :: "lowercase \<Rightarrow> ustr \<Rightarrow> ustr" where
  "lower lc s = lower_from lc [] s"

text \<open>The mapping restricted to ASCII (\<open>A\<close>..\<open>Z\<close> to \<open>a\<close>..\<open>z\<close>), the identity elsewhere:
  it agrees with Python on ASCII and on every caseless code point, the CJK ideographs
  among them.\<close>

definition ascii_lowercase :: lowercase where
  "ascii_lowercase before c after = (if 65 \<le> c \<and> c \<le> 90 then [c + 32] else [c])"

section \<open>Context optimizer: meeting-type detection\<close>

text \<open>The three keyword lists of \<open>_detect_meeting_type\<close>, in the order the source tests
  them: project review (U+9879 U+76EE "project", "progress", "milestone", "delivery",
  "delay"), weekly meeting ("this week", "next week", "regular meeting", "daily work"),
  strategic planning (U+6218 U+7565 "strategy", "planning", "goal", "investment",
  "direction").\<close>

definition project_review_words :: "ustr list" where
  "project_review_words =
     [[39033, 30446], [36827, 24230], [37324, 31243, 30865], [20132, 20184], [24310, 26399]]"

definition weekly_meeting_words :: "ustr list" where
  "weekly_meeting_words =
     [[26412, 21608], [19979, 21608], [20363, 20250], [26085, 24120, 24037, 20316]]"

definition strategic_planning_words :: "ustr list" where
  "strategic_planning_words =
     [[25112, 30053], [35268, 21010], [30446, 26631], [25237, 36164], [26041, 21521]]"

definition detect_meeting_type :: "lowercase \<Rightarrow> ustr \<Rightarrow> ustr" where
  "detect_meeting_type lc transcript =
     (let transcript_lower = lower lc transcript in
      if any_in project_review_words transcript_lower then ascii ''project_review''
      else if any_in weekly_meeting_words transcript_lower then ascii ''weekly_meeting''
      else if any_in strategic_planning_words transcript_lower then ascii ''strategic_planning''
      else ascii ''general_meeting'')"

section \<open>The summary document\<close>

text \<open>
  A summary is the dictionary that \<open>json.loads\<close> makes of a backend's answer, or that a
  degradation template builds. It is modelled as a record whose fields are the keys the
  source reads or writes, typed as the data model and the prompt's output schema type
  them; a field is \<open>None\<close> when the key is absent, which is what the source's
  \<open>d.get(key, default)\<close> asks about. Field names carry the initial of their document
  (\<open>s_\<close>, \<open>kp_\<close>, \<open>d_\<close>, \<open>a_\<close>), since several documents share a key.

  The deadline of an action item is the one value the source inspects inside
  \<open>try ... except\<close>; it is kept as an arbitrary JSON value, so that the inspection can
  raise. Risks and opportunities are never inspected and stay JSON values too. A JSON
  number is an \<open>int\<close> or a \<open>float\<close>; of a float only its being zero matters here
  (\<open>Finite m e\<close> stands for \<open>m * 2 ^ e\<close>).
\<close>

datatype pyfloat = Finite int int | PosInf | NegInf | NaN

datatype pyval =
    PNone
  | PBool bool
  | PInt int
  | PFloat pyfloat
  | PStr ustr
  | PList "pyval list"
  | PDict "(ustr \<times> pyval) list"

record key_point =
  kp_topic :: "ustr option"
  kp_content :: "ustr option"
  kp_participants :: "ustr list option"
  kp_timestamp :: "ustr option"
  kp_importance :: "ustr option"
  kp_category :: "ustr option"

record decision =
  d_content :: "ustr option"
  d_responsible :: "ustr option"
  d_deadline :: "ustr option"
  d_impact :: "ustr option"
  d_urgency :: "ustr option"

record action_item =
  a_task :: "ustr option"
  a_assignee :: "ustr option"
  a_deadline :: "pyval option"
  a_priority :: "ustr option"
  a_deliverables :: "ustr option"

record summary =
  s_title :: "ustr option"
  s_overview :: "ustr option"
  s_key_points :: "key_point list option"
  s_decisions :: "decision list option"
  s_action_items :: "action_item list option"
  s_risks :: "pyval list option"
  s_opportunities :: "pyval list option"
  s_industry :: "ustr option"
  s_meeting_type :: "ustr option"
  s_key_decisions :: "decision list option"

section \<open>Adapters: the degradation templates\<close>

text \<open>\<open>split_on sep s\<close> is \<open>s.split(sep)\<close> for a separator of one code point: the pieces
  between the separators, one more than there are separators. \<open>str_nat n\<close> is the
  decimal numeral an f-string prints for a non-negative integer.\<close>

fun split_on :: "'a \<Rightarrow> 'a list \<Rightarrow> 'a list list" where
  "split_on sep [] = [[]]"
| "split_on sep (c # cs) =
     (if c = sep then [] # split_on sep cs
      else (case split_on sep cs of
              line # lines \<Rightarrow> (c # line) # lines
            | [] \<Rightarrow> [[c]]))"

fun str_nat :: "nat \<Rightarrow> ustr" where
  "str_nat n = (if n < 10 then [48 + n] else str_nat (n div 10) @ [48 + n mod 10])"

declare str_nat.simps [simp del]

text \<open>The strings of the templates: U+672A U+77E5 "unknown"; the titles "meeting summary
  (OpenAI degraded version)", "meeting summary (local model version)", "meeting summary
  (Baidu AI version)".\<close>

definition unknown :: ustr where
  "unknown = [26410, 30693]"

definition openai_fallback_title :: ustr where
  "openai_fallback_title =
     [20250, 35758, 25688, 35201, 65288, 79, 112, 101, 110, 65, 73, 38477, 32423, 29256, 65289]"

definition local_fallback_title :: ustr where
  "local_fallback_title =
     [20250, 35758, 25688, 35201, 65288, 26412, 22320, 27169, 22411, 29256, 65289]"

definition local_fallback_overview :: ustr where
  "local_fallback_overview =
     [22522, 20110, 26412, 22320, 27169, 22411, 29983, 25104, 30340, 20250, 35758, 25688, 35201]"

definition baidu_fallback_title :: ustr where
  "baidu_fallback_title =
     [20250, 35758, 25688, 35201, 65288, 30334, 24230, 65, 73, 29256, 65289]"

definition baidu_fallback_overview :: ustr where
  "baidu_fallback_overview =
     [22522, 20110, 30334, 24230, 25991, 24515, 19968, 35328, 29983, 25104, 30340, 20250, 35758,
      25688, 35201]"

text \<open>
  \<open>OpenAIAdapter._create_fallback_summary\<close>, \<open>LocalModelAdapter._create_local_fallback_summary\<close>
  and \<open>BaiduAIAdapter._create_baidu_fallback_summary\<close>: the first 5, 3 and 4 lines of the
  transcript become key points. The OpenAI overview is the f-string "the meeting has
  \<open>len(lines)\<close> main discussion points"; the topics are "discussion point", "key point"
  and "key discussion" followed by the line's number.
\<close>

definition create_fallback_summary :: "ustr \<Rightarrow> summary" where
  "create_fallback_summary transcript =
     (let lines = take 5 (split_on 10 transcript) in
      \<lparr>s_title = Some openai_fallback_title,
       s_overview = Some ([20250, 35758, 21253, 21547] @ str_nat (length lines)
                          @ [20010, 20027, 35201, 35752, 35770, 28857]),
       s_key_points = Some (map (\<lambda>(i, line).
           \<lparr>kp_topic = Some ([35752, 35770, 28857] @ str_nat (i + 1)),
            kp_content = Some line,
            kp_participants = Some [unknown],
            kp_timestamp = Some unknown,
            kp_importance = None,
            kp_category = None\<rparr>) (enumerate 0 lines)),
       s_decisions = Some [],
       s_action_items = Some [],
       s_risks = Some [],
       s_opportunities = Some [],
       s_industry = None,
       s_meeting_type = None,
       s_key_decisions = None\<rparr>)"

definition create_local_fallback_summary :: "ustr \<Rightarrow> summary" where
  "create_local_fallback_summary transcript =
     (let lines = take 3 (split_on 10 transcript) in
      \<lparr>s_title = Some local_fallback_title,
       s_overview = Some local_fallback_overview,
       s_key_points = Some (map (\<lambda>(i, line).
           \<lparr>kp_topic = Some ([35201, 28857] @ str_nat (i + 1)),
            kp_content = Some line,
            kp_participants = Some [unknown],
            kp_timestamp = Some unknown,
            kp_importance = None,
            kp_category = None\<rparr>) (enumerate 0 lines)),
       s_decisions = Some [],
       s_action_items = Some [],
       s_risks = Some [],
       s_opportunities = Some [],
       s_industry = None,
       s_meeting_type = None,
       s_key_decisions = None\<rparr>)"

definition create_baidu_fallback_summary :: "ustr \<Rightarrow> summary" where
  "create_baidu_fallback_summary transcript =
     (let lines = take 4 (split_on 10 transcript) in
      \<lparr>s_title = Some baidu_fallback_title,
       s_overview = Some baidu_fallback_overview,
       s_key_points = Some (map (\<lambda>(i, line).
           \<lparr>kp_topic = Some ([20851, 38190, 35752, 35770] @ str_nat (i + 1)),
            kp_content = Some line,
            kp_participants = Some [unknown],
            kp_timestamp = Some unknown,
            kp_importance = None,
            kp_category = None\<rparr>) (enumerate 0 lines)),
       s_decisions = Some [],
       s_action_items = Some [],
       s_risks = Some [],
       s_opportunities = Some [],
       s_industry = None,
       s_meeting_type = None,
       s_key_decisions = None\<rparr>)"

section \<open>Context optimizer: keyword extraction\<close>

text \<open>
  \<open>re.findall(r'\b\w+\b', transcript)\<close>. The class \<open>\w\<close> of the regular-expression
  engine (the Unicode word characters) is not part of the repository and is a parameter
  \<open>is_word\<close>. A match starts where a word character follows the start of the string or
  a character that is no word character, takes word characters greedily, and must end at
  a boundary, which inside a run of word characters there is none: the matches are the
  maximal runs of word characters, from left to right. \<open>word\<close> is the run being read.
\<close>

fun findall_from :: "(nat \<Rightarrow> bool) \<Rightarrow> ustr \<Rightarrow> ustr \<Rightarrow> ustr list" where
  "findall_from is_word word [] = (if word = [] then [] else [word])"
| "findall_from is_word word (c # cs) =
     (if is_word c then findall_from is_word (word @ [c]) cs
      else (if word = [] then [] else [word]) @ findall_from is_word [] cs)"

definition findall_words :: "(nat \<Rightarrow> bool) \<Rightarrow> ustr \<Rightarrow> ustr list" where
  "findall_words is_word s = findall_from is_word [] s"






section \<open>AI service adapters and the service manager\<close>

text \<open>
  The exceptions that cross the manager: whatever an adapter raises from
  \<open>generate_summary\<close> (an instance of \<open>Exception\<close>, which is what the manager's
  \<open>except Exception\<close> catches), the \<open>RuntimeError\<close> the manager raises itself and the
  \<open>ValueError\<close> of \<open>set_primary_adapter\<close>; and the \<open>TypeError\<close> of a test \<open>w in v\<close> on a
  value that is no container, in the context optimizer. Each carries its message;
  \<open>str_of e\<close> is \<open>str(e)\<close>.
\<close>

datatype error = Exception ustr | RuntimeError ustr | ValueError ustr | TypeError ustr

fun str_of :: "error \<Rightarrow> ustr" where
  "str_of (Exception msg) = msg"
| "str_of (RuntimeError msg) = msg"
| "str_of (ValueError msg) = msg"
| "str_of (TypeError msg) = msg"

text \<open>
  Adapters talk to the outside world (an HTTP API, a loaded model), so their two methods
  are functions of a world state \<open>'w\<close> that they return updated: the same adapter may
  answer differently when it is asked again. The manager's effects are recorded in an
  event list: a call of an adapter's \<open>is_available\<close> or \<open>generate_summary\<close> (by the name
  the adapter was looked up under) and the \<open>logger.info\<close> and \<open>logger.warning\<close> lines.
  \<open>is_available\<close> returns a boolean: the three adapters of the source either test a
  field or catch every exception and answer \<open>False\<close>. The summary type \<open>'s\<close> is left
  open here, the manager only passes it on.
\<close>

datatype event = IsAvailable ustr | GenerateSummary ustr | Info ustr | Warning ustr

record ('w, 's) adapter =
  is_available :: "'w \<Rightarrow> bool \<times> 'w"
  generate_summary :: "ustr \<Rightarrow> ustr \<Rightarrow> 'w \<Rightarrow> (error + 's) \<times> 'w"

record ('w, 's) manager =
  adapters :: "ustr \<Rightarrow> ('w, 's) adapter option"
  current_adapter :: "ustr option"
  fallback_order :: "ustr list"

text \<open>
  \<open>AIServiceManager\<close>: the constructor and the three setters. \<open>adapters\<close> is the
  dictionary from names to adapters; \<open>current_adapter\<close> is \<open>None\<close> until a primary is
  designated. \<open>set_primary_adapter\<close> raises \<open>ValueError\<close> for a name that is not
  registered. The \<open>logger.info\<close> lines of the setters are not modelled.
\<close>

definition manager_init :: "('w, 's) manager" where
  "manager_init = \<lparr>adapters = Map.empty, current_adapter = None, fallback_order = []\<rparr>"

definition register_adapter :: "ustr \<Rightarrow> ('w, 's) adapter \<Rightarrow> ('w, 's) manager \<Rightarrow> ('w, 's) manager" where
  "register_adapter name adapter m = m\<lparr>adapters := (adapters m)(name \<mapsto> adapter)\<rparr>"

definition set_primary_adapter :: "ustr \<Rightarrow> ('w, 's) manager \<Rightarrow> error + ('w, 's) manager" where
  "set_primary_adapter name m =
     (case adapters m name of
        Some adapter \<Rightarrow> Inr (m\<lparr>current_adapter := Some name\<rparr>)
      | None \<Rightarrow> Inl (ValueError ([36866, 37197, 22120, 19981, 23384, 22312, 58, 32] @ name)))"

definition set_fallback_order :: "ustr list \<Rightarrow> ('w, 's) manager \<Rightarrow> ('w, 's) manager" where
  "set_fallback_order order m = m\<lparr>fallback_order := order\<rparr>"

text \<open>The prefixes of the four log lines of \<open>generate_summary_with_fallback\<close> and the
  message of its \<open>RuntimeError\<close> (U+6240 U+6709 "AI" U+9002 U+914D U+5668 U+90FD U+4E0D
  U+53EF U+7528: "no AI adapter is available").\<close>

definition using_adapter :: ustr where
  "using_adapter = [20351, 29992, 36866, 37197, 22120, 58, 32]"

definition primary_failed :: ustr where
  "primary_failed = [20027, 36866, 37197, 22120, 22833, 36133, 58, 32]"

definition using_fallback :: ustr where
  "using_fallback = [20351, 29992, 38477, 32423, 36866, 37197, 22120, 58, 32]"

definition fallback_failed :: ustr where
  "fallback_failed = [38477, 32423, 36866, 37197, 22120, 22833, 36133, 58, 32]"

definition all_adapters_unavailable :: ustr where
  "all_adapters_unavailable =
     [25152, 26377, 65, 73, 36866, 37197, 22120, 37117, 19981, 21487, 29992]"

text \<open>
  \<open>generate_summary_with_fallback\<close>, in its three parts. First the \<open>if\<close> block of the
  primary: \<open>self.current_adapter and self.current_adapter in self.adapters\<close> is false for
  \<open>None\<close>, for the empty name (an empty string is falsy) and for a name that is not a key
  of the registry. A result \<open>Some summary\<close> is the \<open>return\<close> inside the \<open>try\<close>; \<open>None\<close>
  means that control falls through to the loop.
\<close>

definition primary_attempt ::
  "('w, 's) manager \<Rightarrow> ustr \<Rightarrow> ustr \<Rightarrow> 'w \<times> event list \<Rightarrow> 's option \<times> 'w \<times> event list" where
  "primary_attempt m transcript prompt st =
     (case st of (w, log) \<Rightarrow>
        (case current_adapter m of
           None \<Rightarrow> (None, w, log)
         | Some name \<Rightarrow>
             (case (if name = [] then None else adapters m name) of
                None \<Rightarrow> (None, w, log)
              | Some adapter \<Rightarrow>
                  (let (available, w1) = is_available adapter w in
                   if available then
                     (case generate_summary adapter transcript prompt w1 of
                        (Inr summary, w2) \<Rightarrow>
                          (Some summary, w2,
                           log @ [IsAvailable name, Info (using_adapter @ name),
                                  GenerateSummary name])
                      | (Inl e, w2) \<Rightarrow>
                          (None, w2,
                           log @ [IsAvailable name, Info (using_adapter @ name),
                                  GenerateSummary name,
                                  Warning (primary_failed @ str_of e)]))
                   else (None, w1, log @ [IsAvailable name])))))"

text \<open>The \<open>for fallback_name in self.fallback_order\<close> loop: \<open>Some summary\<close> is its
  \<open>return\<close>, \<open>None\<close> the end of the list.\<close>

fun fallback_loop ::
  "('w, 's) manager \<Rightarrow> ustr \<Rightarrow> ustr \<Rightarrow> ustr list \<Rightarrow> 'w \<times> event list
     \<Rightarrow> 's option \<times> 'w \<times> event list" where
  "fallback_loop m transcript prompt [] st = (None, st)"
| "fallback_loop m transcript prompt (fallback_name # rest) (w, log) =
     (case adapters m fallback_name of
        None \<Rightarrow> fallback_loop m transcript prompt rest (w, log)
      | Some adapter \<Rightarrow>
          (let (available, w1) = is_available adapter w in
           if available then
             (case generate_summary adapter transcript prompt w1 of
                (Inr summary, w2) \<Rightarrow>
                  (Some summary, w2,
                   log @ [IsAvailable fallback_name, Info (using_fallback @ fallback_name),
                          GenerateSummary fallback_name])
              | (Inl e, w2) \<Rightarrow>
                  fallback_loop m transcript prompt rest
                    (w2, log @ [IsAvailable fallback_name,
                                Info (using_fallback @ fallback_name),
                                GenerateSummary fallback_name,
                                Warning (fallback_failed @ str_of e)]))
           else fallback_loop m transcript prompt rest (w1, log @ [IsAvailable fallback_name])))"

text \<open>The statement after the loop: \<open>raise RuntimeError(...)\<close>, reached when the loop
  did not return.\<close>

definition or_raise :: "'s option \<times> 'w \<times> event list \<Rightarrow> (error + 's) \<times> 'w \<times> event list" where
  "or_raise r =
     (case r of
        (Some summary, st) \<Rightarrow> (Inr summary, st)
      | (None, st) \<Rightarrow> (Inl (RuntimeError all_adapters_unavailable), st))"

definition generate_summary_with_fallback ::
  "('w, 's) manager \<Rightarrow> ustr \<Rightarrow> ustr \<Rightarrow> 'w \<times> event list
     \<Rightarrow> (error + 's) \<times> 'w \<times> event list" where
  "generate_summary_with_fallback m transcript prompt st =
     (case primary_attempt m transcript prompt st of
        (Some summary, st1) \<Rightarrow> (Inr summary, st1)
      | (None, st1) \<Rightarrow>
          or_raise (fallback_loop m transcript prompt (fallback_order m) st1))"

section \<open>Context optimizer: post-processing\<close>

text \<open>
  \<open>MeetingContext\<close>, the dataclass, and the table \<open>meeting_templates\<close> of the
  optimizer, a dictionary from the three known meeting types to their keyword lists.
  (The field \<open>keywords\<close> is \<open>context_keywords\<close> here: the first is a reserved word.)
\<close>

record meeting_context =
  meeting_type :: ustr
  industry :: ustr
  participants :: "ustr list"
  duration :: int
  context_keywords :: "ustr list"
  historical_context :: "pyval option"

record template =
  focus_areas :: "ustr list"
  decision_patterns :: "ustr list"
  action_patterns :: "ustr list"

definition meeting_templates :: "ustr \<Rightarrow> template option" where
  "meeting_templates =
     [ascii ''project_review'' \<mapsto>
        \<lparr>focus_areas = [[36827, 24230], [39118, 38505], [36164, 28304],
                        [19979, 19968, 27493, 35745, 21010]],
         decision_patterns = [[25209, 20934], [21516, 24847], [20915, 23450], [30830, 35748]],
         action_patterns = [[36127, 36131], [23436, 25104], [25552, 20132], [36319, 36827]]\<rparr>,
      ascii ''weekly_meeting'' \<mapsto>
        \<lparr>focus_areas = [[26412, 21608, 24037, 20316], [19979, 21608, 35745, 21010],
                        [38382, 39064], [21327, 35843]],
         decision_patterns = [[23433, 25490], [35843, 25972], [21327, 35843], [30830, 35748]],
         action_patterns = [[23436, 25104], [36319, 36827], [27719, 25253], [22788, 29702]]\<rparr>,
      ascii ''strategic_planning'' \<mapsto>
        \<lparr>focus_areas = [[25112, 30053], [30446, 26631], [26041, 21521], [25237, 36164]],
         decision_patterns = [[20915, 23450], [30830, 23450], [25209, 20934], [36890, 36807]],
         action_patterns = [[21046, 23450], [35843, 30740], [20998, 26512], [25552, 20132]]\<rparr>]"

text \<open>The three tags.\<close>

definition high :: ustr where "high = ascii ''high''"
definition medium :: ustr where "medium = ascii ''medium''"
definition low :: ustr where "low = ascii ''low''"

subsection \<open>Python's truth value and membership test\<close>

fun truthy :: "pyval \<Rightarrow> bool" where
  "truthy PNone = False"
| "truthy (PBool b) = b"
| "truthy (PInt n) = (n \<noteq> 0)"
| "truthy (PFloat (Finite m e)) = (m \<noteq> 0)"
| "truthy (PFloat f) = True"
| "truthy (PStr s) = (s \<noteq> [])"
| "truthy (PList xs) = (xs \<noteq> [])"
| "truthy (PDict kvs) = (kvs \<noteq> [])"

fun type_name :: "pyval \<Rightarrow> ustr" where
  "type_name PNone = ascii ''NoneType''"
| "type_name (PBool b) = ascii ''bool''"
| "type_name (PInt n) = ascii ''int''"
| "type_name (PFloat f) = ascii ''float''"
| "type_name (PStr s) = ascii ''str''"
| "type_name (PList xs) = ascii ''list''"
| "type_name (PDict kvs) = ascii ''dict''"

text \<open>\<open>py_in w v\<close> is \<open>w in v\<close> for a string \<open>w\<close>: the substring test on a string,
  membership in a list, key membership in a dictionary, and a \<open>TypeError\<close> on a value
  that is no container.\<close>

fun py_in :: "ustr \<Rightarrow> pyval \<Rightarrow> error + bool" where
  "py_in w (PStr s) = Inr (substr w s)"
| "py_in w (PList xs) = Inr (PStr w \<in> set xs)"
| "py_in w (PDict kvs) = Inr (w \<in> fst ` set kvs)"
| "py_in w v =
     Inl (TypeError (ascii ''argument of type '' @ [39] @ type_name v @ [39]
                     @ ascii '' is not iterable''))"

text \<open>\<open>w1 in v or w2 in v or ...\<close>: the tests run from the left and stop at the first
  that is true or raises.\<close>

fun any_py_in :: "ustr list \<Rightarrow> pyval \<Rightarrow> error + bool" where
  "any_py_in [] v = Inr False"
| "any_py_in (w # ws) v =
     (case py_in w v of
        Inl e \<Rightarrow> Inl e
      | Inr found \<Rightarrow> if found then Inr True else any_py_in ws v)"

subsection \<open>The three passes\<close>

text \<open>\<open>_adjust_priority_by_meeting_type\<close>: the body of its loop over the key points, and
  the loop. A missing \<open>key_points\<close> key is read as the empty list and stays missing.\<close>

definition adjust_point :: "meeting_context \<Rightarrow> key_point \<Rightarrow> key_point" where
  "adjust_point context point =
     (let content = (case kp_content point of None \<Rightarrow> [] | Some c \<Rightarrow> c) in
      if meeting_type context = ascii ''project_review'' then
        (if any_in [[39118, 38505], [24310, 26399], [38459, 22622]] content
         then point\<lparr>kp_importance := Some high\<rparr> else point)
      else if meeting_type context = ascii ''strategic_planning'' then
        (if any_in [[25237, 36164], [25112, 30053], [26041, 21521]] content
         then point\<lparr>kp_importance := Some high\<rparr> else point)
      else point)"

definition adjust_priority_by_meeting_type :: "summary \<Rightarrow> meeting_context \<Rightarrow> summary" where
  "adjust_priority_by_meeting_type summary context =
     summary\<lparr>s_key_points := map_option (map (adjust_point context)) (s_key_points summary)\<rparr>"

text \<open>
  \<open>_add_time_sensitivity\<close>: the body of its loop over the action items, and the loop.
  The deadline defaults to the empty string; a falsy deadline leaves the item alone.
  Inside the \<open>try\<close>, only the membership tests can raise, and the bare \<open>except\<close> then
  sets the priority to medium. (\<open>current_time\<close> is computed and never used.)
\<close>

definition time_sensitivity :: "action_item \<Rightarrow> action_item" where
  "time_sensitivity action =
     (let deadline = (case a_deadline action of None \<Rightarrow> PStr [] | Some v \<Rightarrow> v) in
      if truthy deadline then
        (case any_py_in [[26412, 21608], [26126, 22825], [20170, 22825]] deadline of
           Inl e \<Rightarrow> action\<lparr>a_priority := Some medium\<rparr>
         | Inr soon \<Rightarrow>
             if soon then action\<lparr>a_priority := Some high\<rparr>
             else
               (case any_py_in [[19979, 21608], [26376, 24213]] deadline of
                  Inl e \<Rightarrow> action\<lparr>a_priority := Some medium\<rparr>
                | Inr later \<Rightarrow>
                    if later then action\<lparr>a_priority := Some medium\<rparr>
                    else action\<lparr>a_priority := Some low\<rparr>))
      else action)"

definition add_time_sensitivity :: "summary \<Rightarrow> summary" where
  "add_time_sensitivity summary =
     summary\<lparr>s_action_items := map_option (map time_sensitivity) (s_action_items summary)\<rparr>"

text \<open>
  \<open>_identify_key_decisions\<close>. The score of a decision; the loop, which tags every
  decision and appends the high ones to \<open>key_decisions\<close>; and the function, which stores
  the first three of a non-empty \<open>key_decisions\<close> under the key of that name. The list
  holds the very dictionaries of \<open>decisions\<close>; they are not changed after they are
  appended, so copies show the same.
\<close>

definition high_impact_words :: "ustr list" where
  "high_impact_words =
     [[25209, 20934], [21516, 24847], [20915, 23450], [30830, 23450], [36890, 36807],
      [25237, 36164], [39044, 31639]]"

definition importance_score :: "meeting_context \<Rightarrow> decision \<Rightarrow> int" where
  "importance_score context decision =
     (let content = (case d_content decision of None \<Rightarrow> [] | Some c \<Rightarrow> c);
          score0 = 0;
          score1 = (case meeting_templates (meeting_type context) of
                      None \<Rightarrow> score0
                    | Some t \<Rightarrow>
                        if any_in (decision_patterns t) content then score0 + 2 else score0);
          score2 = (if any_in high_impact_words content then score1 + 1 else score1)
      in score2)"

fun identify_loop ::
  "meeting_context \<Rightarrow> decision list \<Rightarrow> decision list \<Rightarrow> decision list \<times> decision list" where
  "identify_loop context [] key_decisions = ([], key_decisions)"
| "identify_loop context (decision # rest) key_decisions =
     (if importance_score context decision \<ge> 2 then
        (let tagged = decision\<lparr>d_urgency := Some high\<rparr>;
             (decisions, key_decisions') =
                identify_loop context rest (key_decisions @ [tagged])
         in (tagged # decisions, key_decisions'))
      else if importance_score context decision \<ge> 1 then
        (let (decisions, key_decisions') = identify_loop context rest key_decisions
         in (decision\<lparr>d_urgency := Some medium\<rparr> # decisions, key_decisions'))
      else
        (let (decisions, key_decisions') = identify_loop context rest key_decisions
         in (decision\<lparr>d_urgency := Some low\<rparr> # decisions, key_decisions')))"

definition identify_key_decisions :: "summary \<Rightarrow> meeting_context \<Rightarrow> summary" where
  "identify_key_decisions summary context =
     (let (decisions, key_decisions) =
            identify_loop context
              (case s_decisions summary of None \<Rightarrow> [] | Some ds \<Rightarrow> ds) [];
          summary1 = summary\<lparr>s_decisions := map_option (\<lambda>ds. decisions) (s_decisions summary)\<rparr>
      in if key_decisions \<noteq> []
         then summary1\<lparr>s_key_decisions := Some (take 3 key_decisions)\<rparr>
         else summary1)"

definition post_process_summary :: "summary \<Rightarrow> meeting_context \<Rightarrow> summary" where
  "post_process_summary summary context =
     (let summary1 = summary\<lparr>s_industry := Some (industry context),
                              s_meeting_type := Some (meeting_type context)\<rparr>;
          summary2 = adjust_priority_by_meeting_type summary1 context;
          summary3 = add_time_sensitivity summary2;
          summary4 = identify_key_decisions summary3 context
      in summary4)"

section \<open>Example adapters and managers\<close>

text \<open>
  Concrete adapters over a world that counts the calls made so far, for the witnesses and
  counterexamples below: one that always answers with the transcript, one that is never
  available, one whose \<open>generate_summary\<close> always raises, and one whose
  \<open>generate_summary\<close> raises until the third call has been made.
\<close>

definition echo_adapter :: "(nat, ustr) adapter" where
  "echo_adapter =
     \<lparr>is_available = (\<lambda>w. (True, w + 1)),
      generate_summary = (\<lambda>transcript prompt w. (Inr transcript, w + 1))\<rparr>"

definition offline_adapter :: "(nat, ustr) adapter" where
  "offline_adapter =
     \<lparr>is_available = (\<lambda>w. (False, w + 1)),
      generate_summary = (\<lambda>transcript prompt w. (Inr transcript, w + 1))\<rparr>"

definition raising_adapter :: "(nat, ustr) adapter" where
  "raising_adapter =
     \<lparr>is_available = (\<lambda>w. (True, w + 1)),
      generate_summary = (\<lambda>transcript prompt w. (Inl (Exception (ascii ''timeout'')), w + 1))\<rparr>"

definition flaky_adapter :: "(nat, ustr) adapter" where
  "flaky_adapter =
     \<lparr>is_available = (\<lambda>w. (True, w + 1)),
      generate_summary = (\<lambda>transcript prompt w.
         (if w < 3 then Inl (Exception (ascii ''timeout'')) else Inr transcript, w + 1))\<rparr>"

text \<open>An adapter that, whatever the state of the world, is unavailable or raises from
  \<open>generate_summary\<close> on the given transcript and prompt.\<close>

definition always_fails :: "ustr \<Rightarrow> ustr \<Rightarrow> ('w, 's) adapter \<Rightarrow> bool" where
  "always_fails transcript prompt a \<longleftrightarrow>
     (\<forall>w. case is_available a w of
            (available, w1) \<Rightarrow>
              available \<longrightarrow> isl (fst (generate_summary a transcript prompt w1)))"

text \<open>Managers as \<open>register_adapter\<close>, \<open>set_primary_adapter\<close> and
  \<open>set_fallback_order\<close> build them.\<close>

definition empty_name_manager :: "(nat, ustr) manager" where
  "empty_name_manager =
     \<lparr>adapters = [[] \<mapsto> echo_adapter], current_adapter = Some [], fallback_order = []\<rparr>"

definition flaky_only_manager :: "(nat, ustr) manager" where
  "flaky_only_manager =
     \<lparr>adapters = [ascii ''openai'' \<mapsto> flaky_adapter],
      current_adapter = Some (ascii ''openai''), fallback_order = []\<rparr>"

definition three_offline_manager :: "(nat, ustr) manager" where
  "three_offline_manager =
     \<lparr>adapters = [ascii ''openai'' \<mapsto> offline_adapter,
                  ascii ''local_model'' \<mapsto> offline_adapter,
                  ascii ''baidu'' \<mapsto> offline_adapter],
      current_adapter = Some (ascii ''openai''),
      fallback_order = [ascii ''local_model'', ascii ''baidu'']\<rparr>"

definition demo_manager :: "(nat, ustr) manager" where
  "demo_manager =
     \<lparr>adapters = [ascii ''openai'' \<mapsto> flaky_adapter,
                  ascii ''local_model'' \<mapsto> offline_adapter,
                  ascii ''baidu'' \<mapsto> echo_adapter],
      current_adapter = Some (ascii ''openai''),
      fallback_order = [ascii ''missing'', ascii ''local_model'', ascii ''openai'',
                        ascii ''baidu'']\<rparr>"

definition walk_manager :: "(nat, ustr) manager" where
  "walk_manager =
     \<lparr>adapters = [ascii ''openai'' \<mapsto> raising_adapter,
                  ascii ''local_model'' \<mapsto> offline_adapter,
                  ascii ''backup'' \<mapsto> raising_adapter,
                  ascii ''baidu'' \<mapsto> echo_adapter],
      current_adapter = Some (ascii ''openai''),
      fallback_order = [ascii ''missing'', ascii ''local_model'', ascii ''backup'',
                        ascii ''baidu'']\<rparr>"

text \<open>
  What the claim asks of a degraded document made from \<open>transcript\<close> by a family that
  keeps \<open>n\<close> lines and numbers its topics after \<open>topic\<close>: the seven keys of the schema
  are present; there is one key point for each of the first \<open>n\<close> lines (a transcript has
  one line more than it has newlines, so at least one), its content the line, its topic
  the family's word followed by the line's number, participants and timestamp "unknown",
  no importance and no category; the four other lists are empty.
\<close>

definition degraded_document :: "nat \<Rightarrow> ustr \<Rightarrow> ustr \<Rightarrow> summary \<Rightarrow> bool" where
  "degraded_document n topic transcript d \<longleftrightarrow>
     s_title d \<noteq> None \<and> s_overview d \<noteq> None
     \<and> (\<exists>kps. s_key_points d = Some kps
            \<and> length kps = min n (Suc (count_list transcript 10))
            \<and> map kp_content kps = map Some (take n (split_on 10 transcript))
            \<and> map kp_topic kps
                = map (\<lambda>i. Some (topic @ str_nat (Suc i))) [0..<length kps]
            \<and> map kp_participants kps = replicate (length kps) (Some [unknown])
            \<and> map kp_timestamp kps = replicate (length kps) (Some unknown)
            \<and> map kp_importance kps = replicate (length kps) None
            \<and> map kp_category kps = replicate (length kps) None)
     \<and> s_decisions d = Some [] \<and> s_action_items d = Some []
     \<and> s_risks d = Some [] \<and> s_opportunities d = Some []"

text \<open>
  Documents for the witnesses: a summary with no key at all; the decision "we decide to
  approve this budget" (U+6211 U+4EEC U+51B3 U+5B9A U+6279 U+51C6 U+8BE5 U+9884 U+7B97);
  action items whose deadlines are "this Friday" (U+672C U+5468 U+4E94), "next week"
  (U+4E0B U+5468), the empty string and the number 5; and two contexts.
\<close>

definition empty_summary :: summary where
  "empty_summary =
     \<lparr>s_title = None, s_overview = None, s_key_points = None, s_decisions = None,
      s_action_items = None, s_risks = None, s_opportunities = None, s_industry = None,
      s_meeting_type = None, s_key_decisions = None\<rparr>"

definition budget_decision :: decision where
  "budget_decision =
     \<lparr>d_content = Some [25105, 20204, 20915, 23450, 25209, 20934, 35813, 39044, 31639],
      d_responsible = None, d_deadline = None, d_impact = None, d_urgency = None\<rparr>"

definition action_due :: "pyval \<Rightarrow> action_item" where
  "action_due deadline =
     \<lparr>a_task = None, a_assignee = None, a_deadline = Some deadline, a_priority = None,
      a_deliverables = None\<rparr>"

definition context_of_type :: "ustr \<Rightarrow> meeting_context" where
  "context_of_type mt =
     \<lparr>meeting_type = mt, industry = ascii ''general'', participants = [], duration = 60,
      context_keywords = [], historical_context = None\<rparr>"

section \<open>Candidates that fail in a run\<close>

text \<open>
  The primary as the call tries it: the designated name, when the guard of the first
  \<open>if\<close> lets it through (a name that is not registered is let through here and counts as
  absent below).
\<close>

definition primary_names :: "('w, 's) manager \<Rightarrow> ustr list" where
  "primary_names m =
     (case current_adapter m of
        None \<Rightarrow> []
      | Some name \<Rightarrow> if name = [] then [] else [name])"

text \<open>
  \<open>all_fail m t p names w w'\<close>: tried in this order from the world \<open>w\<close>, every name
  fails in the run, and the world is \<open>w'\<close> afterwards. A name fails when it is not in the
  registry, when its adapter answers \<open>is_available\<close> with false in the state in which it
  is asked, or when the adapter is available and its \<open>generate_summary\<close> raises in the
  state that follows.
\<close>

inductive all_fail ::
  "('w, 's) manager \<Rightarrow> ustr \<Rightarrow> ustr \<Rightarrow> ustr list \<Rightarrow> 'w \<Rightarrow> 'w \<Rightarrow> bool"
  for m :: "('w, 's) manager" and t :: ustr and p :: ustr where
  none_left: "all_fail m t p [] w w"
| absent: "adapters m n = None \<Longrightarrow> all_fail m t p ns w w' \<Longrightarrow> all_fail m t p (n # ns) w w'"
| unavailable:
    "adapters m n = Some a \<Longrightarrow> is_available a w = (False, w1)
     \<Longrightarrow> all_fail m t p ns w1 w' \<Longrightarrow> all_fail m t p (n # ns) w w'"
| raised:
    "adapters m n = Some a \<Longrightarrow> is_available a w = (True, w1)
     \<Longrightarrow> generate_summary a t p w1 = (Inl e, w2)
     \<Longrightarrow> all_fail m t p ns w2 w' \<Longrightarrow> all_fail m t p (n # ns) w w'"

section \<open>Facts about strings\<close>

lemma starts_with_iff: "starts_with w s \<longleftrightarrow> (\<exists>b. s = w @ b)"
  by (induction w s rule: starts_with.induct) auto

lemma substr_iff: "substr w s \<longleftrightarrow> (\<exists>a b. s = a @ w @ b)"
proof (induction s)
  case Nil
  then show ?case by auto
next
  case (Cons c s)
  show ?case
  proof
    assume "substr w (c # s)"
    then consider "starts_with w (c # s)" | "substr w s" by auto
    then show "\<exists>a b. c # s = a @ w @ b"
    proof cases
      case 1
      then obtain b where "c # s = w @ b" by (auto simp: starts_with_iff)
      then have "c # s = [] @ w @ b" by simp
      then show ?thesis by blast
    next
      case 2
      then obtain a b where "s = a @ w @ b" using Cons.IH by blast
      then have "c # s = (c # a) @ w @ b" by simp
      then show ?thesis by blast
    qed
  next
    assume "\<exists>a b. c # s = a @ w @ b"
    then obtain a b where ab: "c # s = a @ w @ b" by blast
    show "substr w (c # s)"
    proof (cases a)
      case Nil
      with ab have "starts_with w (c # s)" by (auto simp: starts_with_iff)
      then show ?thesis by simp
    next
      case (Cons a1 a')
      with ab have "s = a' @ w @ b" by simp
      then have "substr w s" using Cons.IH by blast
      then show ?thesis by simp
    qed
  qed
qed

lemma any_in_iff: "any_in words s \<longleftrightarrow> (\<exists>word \<in> set words. substr word s)"
  by (simp add: any_in_def list_ex_iff)

lemma lower_from_append:
  "\<exists>x. lower_from lc before (a @ b) = x @ lower_from lc (before @ a) b"
proof (induction a arbitrary: before)
  case Nil
  then show ?case by simp
next
  case (Cons c a)
  from Cons.IH [of "before @ [c]"]
  obtain x where "lower_from lc (before @ [c]) (a @ b) = x @ lower_from lc ((before @ [c]) @ a) b"
    by blast
  then have "lower_from lc before ((c # a) @ b)
             = (lc before c (a @ b) @ x) @ lower_from lc (before @ c # a) b"
    by simp
  then show ?case by blast
qed

lemma lower_from_fixed:
  "\<forall>c \<in> set w. \<forall>before after. lc before c after = [c]
     \<Longrightarrow> lower_from lc before (w @ b) = w @ lower_from lc (before @ w) b"
  by (induction w arbitrary: before) auto

lemma substr_lower:
  assumes fixed: "\<forall>c \<in> set w. \<forall>before after. lc before c after = [c]"
    and sub: "substr w s"
  shows "substr w (lower lc s)"
proof -
  from sub obtain a b where s: "s = a @ w @ b" by (auto simp: substr_iff)
  obtain x where "lower_from lc [] (a @ (w @ b)) = x @ lower_from lc ([] @ a) (w @ b)"
    using lower_from_append [of lc "[]" a "w @ b"] by blast
  with fixed have "lower lc s = x @ w @ lower_from lc (a @ w) b"
    by (simp add: lower_def s lower_from_fixed)
  then show ?thesis by (auto simp: substr_iff)
qed

section \<open>Meeting-type detection: the claim\<close>

lemma meeting_type_names_distinct:
  "ascii ''project_review'' \<noteq> ascii ''weekly_meeting''"
  "ascii ''project_review'' \<noteq> ascii ''strategic_planning''"
  "ascii ''project_review'' \<noteq> ascii ''general_meeting''"
  "ascii ''weekly_meeting'' \<noteq> ascii ''strategic_planning''"
  "ascii ''weekly_meeting'' \<noteq> ascii ''general_meeting''"
  "ascii ''strategic_planning'' \<noteq> ascii ''general_meeting''"
  by (simp_all add: ascii_def)

text \<open>
  Claim C8. Meeting-type detection tests the three keyword lists against the lowercased
  transcript in the order project review, weekly meeting, strategic planning; the first
  list with a substring match decides, and no match gives \<open>general_meeting\<close>. A
  transcript that contains U+9879 U+76EE ("project") and U+6218 U+7565 ("strategy") is
  classified \<open>project_review\<close>, never \<open>strategic_planning\<close> (lowercasing leaves the two
  ideographs of "project" alone).
\<close>

theorem detect_meeting_type_priority:
  fixes lc :: lowercase and t :: ustr
  defines "lowered \<equiv> lower lc t"
  defines "hit \<equiv> \<lambda>words. \<exists>word \<in> set words. substr word lowered"
  shows "(detect_meeting_type lc t = ascii ''project_review'' \<longleftrightarrow> hit project_review_words)
       \<and> (detect_meeting_type lc t = ascii ''weekly_meeting'' \<longleftrightarrow>
            \<not> hit project_review_words \<and> hit weekly_meeting_words)
       \<and> (detect_meeting_type lc t = ascii ''strategic_planning'' \<longleftrightarrow>
            \<not> hit project_review_words \<and> \<not> hit weekly_meeting_words
            \<and> hit strategic_planning_words)
       \<and> (detect_meeting_type lc t = ascii ''general_meeting'' \<longleftrightarrow>
            \<not> hit project_review_words \<and> \<not> hit weekly_meeting_words
            \<and> \<not> hit strategic_planning_words)
       \<and> ((\<forall>c \<in> set [39033, 30446]. \<forall>before after. lc before c after = [c])
            \<and> substr [39033, 30446] t \<and> substr [25112, 30053] t
            \<longrightarrow> detect_meeting_type lc t = ascii ''project_review''
                \<and> detect_meeting_type lc t \<noteq> ascii ''strategic_planning'')"
proof -
  have fixed_hit:
    "(\<forall>c \<in> set [39033, 30446]. \<forall>before after. lc before c after = [c])
       \<Longrightarrow> substr [39033, 30446] t \<Longrightarrow> hit project_review_words"
  proof -
    assume "\<forall>c \<in> set [39033, 30446]. \<forall>before after. lc before c after = [c]"
      and "substr [39033, 30446] t"
    then have "substr [39033, 30446] lowered"
      unfolding lowered_def by (rule substr_lower)
    then show "hit project_review_words"
      unfolding hit_def project_review_words_def by simp
  qed
  show ?thesis
    using fixed_hit meeting_type_names_distinct
    unfolding detect_meeting_type_def Let_def any_in_iff hit_def lowered_def
    by auto
qed

theorem detect_meeting_type_priority_witness:
  "detect_meeting_type ascii_lowercase [39033, 30446, 25112, 30053] = ascii ''project_review''
   \<and> detect_meeting_type ascii_lowercase [39033, 30446, 25112, 30053]
       \<noteq> ascii ''strategic_planning''
   \<and> detect_meeting_type ascii_lowercase [25112, 30053] = ascii ''strategic_planning''
   \<and> detect_meeting_type ascii_lowercase [104, 101, 108, 108, 111] = ascii ''general_meeting''"
proof -
  have fixed: "\<forall>c \<in> set [39033, 30446]. \<forall>before after. ascii_lowercase before c after = [c]"
    by (simp add: ascii_lowercase_def)
  have both: "substr [39033, 30446] [39033, 30446, 25112, 30053]
              \<and> substr [25112, 30053] [39033, 30446, 25112, 30053::nat]"
    by simp
  have low: "lower ascii_lowercase [25112, 30053] = [25112, 30053]"
    "lower ascii_lowercase [104, 101, 108, 108, 111] = [104, 101, 108, 108, 111]"
    by (simp_all add: lower_def ascii_lowercase_def)
  have a: "detect_meeting_type ascii_lowercase [39033, 30446, 25112, 30053]
             = ascii ''project_review''
           \<and> detect_meeting_type ascii_lowercase [39033, 30446, 25112, 30053]
             \<noteq> ascii ''strategic_planning''"
    using detect_meeting_type_priority [of ascii_lowercase "[39033, 30446, 25112, 30053]"]
      fixed both by blast
  have b: "detect_meeting_type ascii_lowercase [25112, 30053] = ascii ''strategic_planning''"
    using detect_meeting_type_priority [of ascii_lowercase "[25112, 30053]"]
    by (simp add: low project_review_words_def weekly_meeting_words_def
        strategic_planning_words_def)
  have c: "detect_meeting_type ascii_lowercase [104, 101, 108, 108, 111] = ascii ''general_meeting''"
    using detect_meeting_type_priority [of ascii_lowercase "[104, 101, 108, 108, 111]"]
    by (simp add: low project_review_words_def weekly_meeting_words_def
        strategic_planning_words_def)
  from a b c show ?thesis by blast
qed

section \<open>Service manager: the primary attempt and the fallback loop\<close>

lemma fallback_loop_append:
  "fallback_loop m t p (xs @ ys) st =
     (case fallback_loop m t p xs st of
        (Some s, st') \<Rightarrow> (Some s, st')
      | (None, st') \<Rightarrow> fallback_loop m t p ys st')"
proof (induction m t p xs st rule: fallback_loop.induct)
  case (1 m transcript prompt st)
  then show ?case by simp
next
  case (2 m transcript prompt fallback_name rest w log)
  show ?case
  proof (cases "adapters m fallback_name")
    case None
    with 2 show ?thesis by simp
  next
    case (Some adapter)
    obtain available w1 where av: "is_available adapter w = (available, w1)"
      by (cases "is_available adapter w")
    show ?thesis
    proof (cases available)
      case False
      with 2 Some av show ?thesis by simp
    next
      case True
      obtain r w2 where gen: "generate_summary adapter transcript prompt w1 = (r, w2)"
        by (cases "generate_summary adapter transcript prompt w1")
      show ?thesis
      proof (cases r)
        case (Inl e)
        with 2 Some av True gen show ?thesis by simp
      next
        case (Inr s)
        with Some av True gen show ?thesis by simp
      qed
    qed
  qed
qed

lemma primary_attempt_absent:
  "current_adapter m = None \<or> current_adapter m = Some []
     \<or> (\<exists>name. current_adapter m = Some name \<and> adapters m name = None)
   \<Longrightarrow> primary_attempt m t p (w, log) = (None, w, log)"
  by (auto simp: primary_attempt_def)

lemma primary_attempt_unavailable:
  "current_adapter m = Some name \<Longrightarrow> name \<noteq> [] \<Longrightarrow> adapters m name = Some a
   \<Longrightarrow> is_available a w = (False, w1)
   \<Longrightarrow> primary_attempt m t p (w, log) = (None, w1, log @ [IsAvailable name])"
  by (simp add: primary_attempt_def)

lemma primary_attempt_returns:
  "current_adapter m = Some name \<Longrightarrow> name \<noteq> [] \<Longrightarrow> adapters m name = Some a
   \<Longrightarrow> is_available a w = (True, w1) \<Longrightarrow> generate_summary a t p w1 = (Inr s, w2)
   \<Longrightarrow> primary_attempt m t p (w, log)
       = (Some s, w2, log @ [IsAvailable name, Info (using_adapter @ name), GenerateSummary name])"
  by (simp add: primary_attempt_def)

lemma primary_attempt_raises:
  "current_adapter m = Some name \<Longrightarrow> name \<noteq> [] \<Longrightarrow> adapters m name = Some a
   \<Longrightarrow> is_available a w = (True, w1) \<Longrightarrow> generate_summary a t p w1 = (Inl e, w2)
   \<Longrightarrow> primary_attempt m t p (w, log)
       = (None, w2, log @ [IsAvailable name, Info (using_adapter @ name), GenerateSummary name,
                           Warning (primary_failed @ str_of e)])"
  by (simp add: primary_attempt_def)

lemma fallback_loop_absent:
  "adapters m n = None \<Longrightarrow> fallback_loop m t p (n # ns) (w, log) = fallback_loop m t p ns (w, log)"
  by simp

lemma fallback_loop_unavailable:
  "adapters m n = Some a \<Longrightarrow> is_available a w = (False, w1)
   \<Longrightarrow> fallback_loop m t p (n # ns) (w, log)
       = fallback_loop m t p ns (w1, log @ [IsAvailable n])"
  by simp

lemma fallback_loop_returns:
  "adapters m n = Some a \<Longrightarrow> is_available a w = (True, w1)
   \<Longrightarrow> generate_summary a t p w1 = (Inr s, w2)
   \<Longrightarrow> fallback_loop m t p (n # ns) (w, log)
       = (Some s, w2, log @ [IsAvailable n, Info (using_fallback @ n), GenerateSummary n])"
  by simp

lemma fallback_loop_raises:
  "adapters m n = Some a \<Longrightarrow> is_available a w = (True, w1)
   \<Longrightarrow> generate_summary a t p w1 = (Inl e, w2)
   \<Longrightarrow> fallback_loop m t p (n # ns) (w, log)
       = fallback_loop m t p ns
           (w2, log @ [IsAvailable n, Info (using_fallback @ n), GenerateSummary n,
                       Warning (fallback_failed @ str_of e)])"
  by simp

lemma fallback_loop_all_fail:
  "\<forall>k \<in> set ns. \<forall>a. adapters m k = Some a \<longrightarrow> always_fails t p a
   \<Longrightarrow> fst (fallback_loop m t p ns st) = None"
proof (induction m t p ns st rule: fallback_loop.induct)
  case (1 m transcript prompt st)
  then show ?case by simp
next
  case (2 m transcript prompt fallback_name rest w log)
  show ?case
  proof (cases "adapters m fallback_name")
    case None
    with 2 show ?thesis by simp
  next
    case (Some adapter)
    with "2.prems" have af: "always_fails transcript prompt adapter" by simp
    obtain available w1 where av: "is_available adapter w = (available, w1)"
      by (cases "is_available adapter w")
    show ?thesis
    proof (cases available)
      case False
      with 2 Some av show ?thesis by simp
    next
      case True
      obtain r w2 where gen: "generate_summary adapter transcript prompt w1 = (r, w2)"
        by (cases "generate_summary adapter transcript prompt w1")
      from af av True gen have "isl r"
        unfolding always_fails_def by (auto dest: spec [of _ w])
      then obtain e where "r = Inl e" by (cases r) auto
      with 2 Some av True gen show ?thesis by simp
    qed
  qed
qed

lemma primary_attempt_all_fail:
  assumes "\<forall>name a. current_adapter m = Some name \<longrightarrow> adapters m name = Some a
             \<longrightarrow> always_fails t p a"
  shows "fst (primary_attempt m t p st) = None"
proof -
  obtain w log where st: "st = (w, log)" by (cases st)
  show ?thesis
  proof (cases "current_adapter m")
    case None
    then show ?thesis by (simp add: primary_attempt_def st)
  next
    case (Some name)
    show ?thesis
    proof (cases "if name = [] then None else adapters m name")
      case None
      with Some show ?thesis by (simp add: primary_attempt_def st)
    next
      case (Some a)
      then have reg: "adapters m name = Some a" and ne: "name \<noteq> []"
        by (auto split: if_splits)
      with assms \<open>current_adapter m = Some name\<close> have af: "always_fails t p a" by blast
      obtain available w1 where av: "is_available a w = (available, w1)"
        by (cases "is_available a w")
      show ?thesis
      proof (cases available)
        case False
        with \<open>current_adapter m = Some name\<close> reg ne av show ?thesis
          by (simp add: primary_attempt_def st)
      next
        case True
        obtain r w2 where gen: "generate_summary a t p w1 = (r, w2)"
          by (cases "generate_summary a t p w1")
        from af av True gen have "isl r"
          unfolding always_fails_def by (auto dest: spec [of _ w])
        then obtain e where "r = Inl e" by (cases r) auto
        with \<open>current_adapter m = Some name\<close> reg ne av True gen show ?thesis
          by (simp add: primary_attempt_def st)
      qed
    qed
  qed
qed

lemma generate_summary_with_fallback_error:
  "fst (generate_summary_with_fallback m t p st) = Inl e
   \<Longrightarrow> e = RuntimeError all_adapters_unavailable"
  by (auto simp: generate_summary_with_fallback_def or_raise_def
      split: prod.splits option.splits)

section \<open>Service manager: runs in which every candidate fails\<close>

inductive_cases all_fail_NilE: "all_fail m t p [] w w'"
inductive_cases all_fail_ConsE: "all_fail m t p (n # ns) w w'"

lemma all_fail_join:
  "all_fail m t p xs w w' \<Longrightarrow> all_fail m t p ys w' w'' \<Longrightarrow> all_fail m t p (xs @ ys) w w''"
  by (induction rule: all_fail.induct) (auto intro: all_fail.intros)

lemma all_fail_split:
  "all_fail m t p (xs @ ys) w w''
   \<Longrightarrow> \<exists>w'. all_fail m t p xs w w' \<and> all_fail m t p ys w' w''"
proof (induction xs arbitrary: w)
  case Nil
  then show ?case by (auto intro: all_fail.none_left)
next
  case (Cons n ns)
  from Cons.prems have "all_fail m t p (n # (ns @ ys)) w w''" by simp
  then show ?case
  proof (rule all_fail_ConsE)
    assume "adapters m n = None" and "all_fail m t p (ns @ ys) w w''"
    then show ?thesis
      using Cons.IH [of w] by (blast intro: all_fail.absent)
  next
    fix a w1
    assume "adapters m n = Some a" and "is_available a w = (False, w1)"
      and "all_fail m t p (ns @ ys) w1 w''"
    then show ?thesis
      using Cons.IH [of w1] by (blast intro: all_fail.unavailable)
  next
    fix a w1 e w2
    assume "adapters m n = Some a" and "is_available a w = (True, w1)"
      and "generate_summary a t p w1 = (Inl e, w2)"
      and "all_fail m t p (ns @ ys) w2 w''"
    then show ?thesis
      using Cons.IH [of w2] by (blast intro: all_fail.raised)
  qed
qed

lemma all_fail_loop:
  "all_fail m t p ns w w' \<Longrightarrow> \<exists>log'. fallback_loop m t p ns (w, log) = (None, w', log')"
proof (induction arbitrary: log rule: all_fail.induct)
  case (none_left w)
  then show ?case by simp
next
  case (absent n ns w w')
  then show ?case by simp
next
  case (unavailable n a w w1 ns w')
  then show ?case by simp
next
  case (raised n a w w1 e w2 ns w')
  then show ?case by simp
qed

lemma loop_all_fail:
  "fallback_loop m t p ns st = (None, w', log') \<Longrightarrow> all_fail m t p ns (fst st) w'"
proof (induction m t p ns st rule: fallback_loop.induct)
  case (1 m transcript prompt st)
  then show ?case by (auto intro: all_fail.none_left)
next
  case (2 m transcript prompt fallback_name rest w log)
  show ?case
  proof (cases "adapters m fallback_name")
    case None
    with 2 show ?thesis by (auto intro: all_fail.absent)
  next
    case (Some adapter)
    obtain available w1 where av: "is_available adapter w = (available, w1)"
      by (cases "is_available adapter w")
    show ?thesis
    proof (cases available)
      case False
      with 2 Some av show ?thesis by (auto intro: all_fail.unavailable)
    next
      case True
      obtain r w2 where gen: "generate_summary adapter transcript prompt w1 = (r, w2)"
        by (cases "generate_summary adapter transcript prompt w1")
      show ?thesis
      proof (cases r)
        case (Inl e)
        with 2 Some av True gen show ?thesis by (auto intro: all_fail.raised)
      next
        case (Inr s)
        with "2.prems" Some av True gen show ?thesis by simp
      qed
    qed
  qed
qed

lemma all_fail_primary:
  "all_fail m t p (primary_names m) w w1
   \<Longrightarrow> \<exists>log1. primary_attempt m t p (w, log) = (None, w1, log1)"
proof (cases "current_adapter m")
  case None
  assume "all_fail m t p (primary_names m) w w1"
  with None show ?thesis
    by (auto simp: primary_names_def primary_attempt_def elim: all_fail_NilE)
next
  case (Some name)
  assume a: "all_fail m t p (primary_names m) w w1"
  show ?thesis
  proof (cases "name = []")
    case True
    with a Some show ?thesis
      by (auto simp: primary_names_def primary_attempt_def elim: all_fail_NilE)
  next
    case False
    with a Some have "all_fail m t p [name] w w1" by (simp add: primary_names_def)
    then show ?thesis
    proof (rule all_fail_ConsE)
      assume "adapters m name = None" and "all_fail m t p [] w w1"
      with Some False show ?thesis
        by (auto simp: primary_attempt_def elim: all_fail_NilE)
    next
      fix a w'
      assume "adapters m name = Some a" and "is_available a w = (False, w')"
        and "all_fail m t p [] w' w1"
      with Some False show ?thesis
        by (auto simp: primary_attempt_def elim: all_fail_NilE)
    next
      fix a w' e w2
      assume "adapters m name = Some a" and "is_available a w = (True, w')"
        and "generate_summary a t p w' = (Inl e, w2)" and "all_fail m t p [] w2 w1"
      with Some False show ?thesis
        by (auto simp: primary_attempt_def elim: all_fail_NilE)
    qed
  qed
qed

lemma primary_all_fail:
  assumes "primary_attempt m t p (w, log) = (None, w1, log1)"
  shows "all_fail m t p (primary_names m) w w1"
proof (cases "current_adapter m")
  case None
  with assms show ?thesis
    by (auto simp: primary_names_def primary_attempt_def intro: all_fail.none_left)
next
  case (Some name)
  show ?thesis
  proof (cases "if name = [] then None else adapters m name")
    case None
    with assms Some show ?thesis
      by (auto simp: primary_names_def primary_attempt_def split: if_splits
          intro: all_fail.intros)
  next
    case (Some a)
    then have reg: "adapters m name = Some a" and ne: "name \<noteq> []"
      by (auto split: if_splits)
    obtain available w' where av: "is_available a w = (available, w')"
      by (cases "is_available a w")
    show ?thesis
    proof (cases available)
      case False
      with assms \<open>current_adapter m = Some name\<close> reg ne av show ?thesis
        by (auto simp: primary_names_def primary_attempt_def intro: all_fail.intros)
    next
      case True
      obtain r w2 where gen: "generate_summary a t p w' = (r, w2)"
        by (cases "generate_summary a t p w'")
      show ?thesis
      proof (cases r)
        case (Inl e)
        with assms \<open>current_adapter m = Some name\<close> reg ne av True gen show ?thesis
          by (auto simp: primary_names_def primary_attempt_def intro: all_fail.intros)
      next
        case (Inr s)
        with assms \<open>current_adapter m = Some name\<close> reg ne av True gen show ?thesis
          by (simp add: primary_attempt_def)
      qed
    qed
  qed
qed

section \<open>Service manager: the claims\<close>

text \<open>
  What the code does for a primary designated under a non-empty name: if it is in the
  registry, answers \<open>is_available\<close> with true and returns from \<open>generate_summary\<close> (a
  degraded document is a normal return), then \<open>generate_summary_with_fallback\<close> returns
  exactly that result; the only adapter calls are the probe and the call of the primary,
  so no fallback adapter is consulted, and the result does not depend on the fallback
  order.
\<close>

lemma primary_success_short_circuits:
  assumes "current_adapter m = Some name" and "name \<noteq> []"
    and "adapters m name = Some a"
    and "is_available a w = (True, w1)"
    and "generate_summary a t p w1 = (Inr s, w2)"
  shows "generate_summary_with_fallback m t p (w, log)
           = (Inr s, w2,
              log @ [IsAvailable name, Info (using_adapter @ name), GenerateSummary name])
       \<and> generate_summary_with_fallback (m\<lparr>fallback_order := order\<rparr>) t p (w, log)
           = generate_summary_with_fallback m t p (w, log)"
proof -
  have "primary_attempt m' t p (w, log)
          = (Some s, w2,
             log @ [IsAvailable name, Info (using_adapter @ name), GenerateSummary name])"
    if "m' = m \<or> m' = m\<lparr>fallback_order := order\<rparr>" for m'
    using that assms by (auto intro!: primary_attempt_returns)
  then show ?thesis
    by (simp add: generate_summary_with_fallback_def)
qed

lemma primary_success_short_circuits_example:
  "generate_summary_with_fallback
     \<lparr>adapters = [ascii ''openai'' \<mapsto> echo_adapter, ascii ''baidu'' \<mapsto> raising_adapter],
      current_adapter = Some (ascii ''openai''), fallback_order = [ascii ''baidu'']\<rparr>
     [20250, 35758] [123, 125] (0, [])
   = (Inr [20250, 35758], 2,
      [IsAvailable (ascii ''openai''), Info (using_adapter @ ascii ''openai''),
       GenerateSummary (ascii ''openai'')])"
proof -
  let ?m = "\<lparr>adapters = [ascii ''openai'' \<mapsto> echo_adapter, ascii ''baidu'' \<mapsto> raising_adapter],
      current_adapter = Some (ascii ''openai''), fallback_order = [ascii ''baidu'']\<rparr>"
  have 1: "current_adapter ?m = Some (ascii ''openai'')" by simp
  have 2: "ascii ''openai'' \<noteq> []" by (simp add: ascii_def)
  have 3: "adapters ?m (ascii ''openai'') = Some echo_adapter" by (simp add: ascii_def)
  have 4: "is_available echo_adapter 0 = (True, 1)" by (simp add: echo_adapter_def)
  have 5: "generate_summary echo_adapter [20250, 35758] [123, 125] 1 = (Inr [20250, 35758], 2)"
    by (simp add: echo_adapter_def)
  from primary_success_short_circuits [OF 1 2 3 4 5, of "[]"]
  show ?thesis by simp
qed

text \<open>
  Claim C1. The claim asks that an available primary whose \<open>generate_summary\<close> returns
  always supplies the result. The code does not do so for a primary registered and
  designated under the empty name: \<open>set_primary_adapter\<close> accepts the name, but the guard
  \<open>if self.current_adapter and ...\<close>, written for the initial \<open>None\<close>, reads the empty
  string as false too. The primary is never asked; with no fallback the call raises
  although the primary is available and would return. The fallback loop of the same
  function looks the empty name up like any other: with the empty name in the fallback
  order, the very adapter that was skipped as primary answers as a fallback.
\<close>

theorem primary_empty_name_skipped:
  "set_primary_adapter [] (register_adapter [] echo_adapter manager_init) = Inr empty_name_manager
   \<and> current_adapter empty_name_manager = Some []
   \<and> adapters empty_name_manager [] = Some echo_adapter
   \<and> is_available echo_adapter 0 = (True, 1)
   \<and> generate_summary echo_adapter [20250, 35758] [123, 125] 1 = (Inr [20250, 35758], 2)
   \<and> generate_summary_with_fallback empty_name_manager [20250, 35758] [123, 125] (0, [])
       = (Inl (RuntimeError all_adapters_unavailable), 0, [])
   \<and> generate_summary_with_fallback (set_fallback_order [[]] empty_name_manager)
         [20250, 35758] [123, 125] (0, [])
       = (Inr [20250, 35758], 2,
          [IsAvailable [], Info (using_fallback @ []), GenerateSummary []])"
  by (simp add: set_primary_adapter_def register_adapter_def manager_init_def
      set_fallback_order_def empty_name_manager_def echo_adapter_def
      generate_summary_with_fallback_def primary_attempt_def or_raise_def)

text \<open>
  Claim C2, as amended. When, in the run, the primary and every fallback candidate is
  unavailable or raises, \<open>generate_summary_with_fallback\<close> returns no document: it
  raises \<open>RuntimeError\<close>; conversely it raises only when every name it tried failed.
  Whatever fails, the error it raises is this one, with one fixed message, so the message
  carries neither the adapters that were tried nor the reasons. Adapters that are
  unavailable or raising in every state of the world are a case of this.
\<close>

theorem backend_exhaustion:
  "((\<exists>w'. all_fail m t p (primary_names m @ fallback_order m) w w')
      \<longleftrightarrow> fst (generate_summary_with_fallback m t p (w, log))
            = Inl (RuntimeError all_adapters_unavailable))
   \<and> (fst (generate_summary_with_fallback m t p (w, log)) = Inl e
        \<longrightarrow> e = RuntimeError all_adapters_unavailable)
   \<and> ((\<forall>name a. adapters m name = Some a
          \<longrightarrow> current_adapter m = Some name \<or> name \<in> set (fallback_order m)
          \<longrightarrow> always_fails t p a)
        \<longrightarrow> fst (generate_summary_with_fallback m t p (w, log))
              = Inl (RuntimeError all_adapters_unavailable))"
proof (intro conjI impI iffI)
  assume "\<exists>w'. all_fail m t p (primary_names m @ fallback_order m) w w'"
  then obtain w1 w' where "all_fail m t p (primary_names m) w w1"
    and "all_fail m t p (fallback_order m) w1 w'"
    by (blast dest: all_fail_split)
  then obtain log1 log' where "primary_attempt m t p (w, log) = (None, w1, log1)"
    and "fallback_loop m t p (fallback_order m) (w1, log1) = (None, w', log')"
    using all_fail_primary [of m t p w w1 log] all_fail_loop [of m t p "fallback_order m" w1 w']
    by blast
  then show "fst (generate_summary_with_fallback m t p (w, log))
           = Inl (RuntimeError all_adapters_unavailable)"
    by (simp add: generate_summary_with_fallback_def or_raise_def)
next
  assume failed: "fst (generate_summary_with_fallback m t p (w, log))
           = Inl (RuntimeError all_adapters_unavailable)"
  obtain r w1 log1 where pa: "primary_attempt m t p (w, log) = (r, w1, log1)"
    by (cases "primary_attempt m t p (w, log)")
  obtain r' w' log' where
    fl: "fallback_loop m t p (fallback_order m) (w1, log1) = (r', w', log')"
    by (cases "fallback_loop m t p (fallback_order m) (w1, log1)")
  from failed pa have r: "r = None"
    by (cases r) (simp_all add: generate_summary_with_fallback_def)
  with failed pa fl have r': "r' = None"
    by (cases r') (simp_all add: generate_summary_with_fallback_def or_raise_def)
  from pa r have "all_fail m t p (primary_names m) w w1"
    by (auto intro: primary_all_fail)
  moreover from fl r' have "all_fail m t p (fallback_order m) w1 w'"
    using loop_all_fail [of m t p "fallback_order m" "(w1, log1)" w' log'] by simp
  ultimately show "\<exists>w'. all_fail m t p (primary_names m @ fallback_order m) w w'"
    by (blast intro: all_fail_join)
next
  assume "fst (generate_summary_with_fallback m t p (w, log)) = Inl e"
  then show "e = RuntimeError all_adapters_unavailable"
    by (rule generate_summary_with_fallback_error)
next
  assume all: "\<forall>name a. adapters m name = Some a
        \<longrightarrow> current_adapter m = Some name \<or> name \<in> set (fallback_order m)
        \<longrightarrow> always_fails t p a"
  then have "fst (primary_attempt m t p (w, log)) = None"
    by (intro primary_attempt_all_fail) blast
  then obtain st1 where pa: "primary_attempt m t p (w, log) = (None, st1)"
    by (cases "primary_attempt m t p (w, log)") auto
  from all have "fst (fallback_loop m t p (fallback_order m) st1) = None"
    by (intro fallback_loop_all_fail) blast
  then obtain st2 where "fallback_loop m t p (fallback_order m) st1 = (None, st2)"
    by (cases "fallback_loop m t p (fallback_order m) st1") auto
  with pa show "fst (generate_summary_with_fallback m t p (w, log))
           = Inl (RuntimeError all_adapters_unavailable)"
    by (simp add: generate_summary_with_fallback_def or_raise_def)
qed

lemma offline_always_fails: "always_fails t p offline_adapter"
  by (simp add: always_fails_def offline_adapter_def)

theorem backend_exhaustion_witness:
  "fst (generate_summary_with_fallback flaky_only_manager [20250, 35758] [123, 125] (0, []))
     = Inl (RuntimeError all_adapters_unavailable)
   \<and> \<not> always_fails [20250, 35758] [123, 125] flaky_adapter
   \<and> fst (generate_summary_with_fallback three_offline_manager [20250, 35758] [123, 125]
            (0, []))
     = Inl (RuntimeError all_adapters_unavailable)"
proof -
  let ?t = "[20250, 35758] :: ustr" and ?p = "[123, 125] :: ustr"
  have "all_fail flaky_only_manager ?t ?p [ascii ''openai''] 0 2"
  proof (rule all_fail.raised)
    show "adapters flaky_only_manager (ascii ''openai'') = Some flaky_adapter"
      by (simp add: flaky_only_manager_def)
    show "is_available flaky_adapter 0 = (True, 1)"
      by (simp add: flaky_adapter_def)
    show "generate_summary flaky_adapter ?t ?p 1 = (Inl (Exception (ascii ''timeout'')), 2)"
      by (simp add: flaky_adapter_def)
    show "all_fail flaky_only_manager ?t ?p [] 2 2"
      by (rule all_fail.none_left)
  qed
  moreover have "primary_names flaky_only_manager @ fallback_order flaky_only_manager
                   = [ascii ''openai'']"
    by (simp add: primary_names_def flaky_only_manager_def ascii_def)
  ultimately have
    "\<exists>w'. all_fail flaky_only_manager ?t ?p
            (primary_names flaky_only_manager @ fallback_order flaky_only_manager) 0 w'"
    by auto
  with backend_exhaustion [of flaky_only_manager ?t ?p 0 "[]"]
  have a: "fst (generate_summary_with_fallback flaky_only_manager ?t ?p (0, []))
             = Inl (RuntimeError all_adapters_unavailable)"
    by blast
  have "is_available flaky_adapter 5 = (True, 6)
        \<and> generate_summary flaky_adapter ?t ?p 6 = (Inr ?t, 7)"
    by (simp add: flaky_adapter_def)
  then have b: "\<not> always_fails ?t ?p flaky_adapter"
    unfolding always_fails_def by (auto intro!: exI [of _ 5])
  have "\<forall>name a. adapters three_offline_manager name = Some a
        \<longrightarrow> current_adapter three_offline_manager = Some name
            \<or> name \<in> set (fallback_order three_offline_manager)
        \<longrightarrow> always_fails ?t ?p a"
    by (auto simp: three_offline_manager_def offline_always_fails split: if_splits)
  with backend_exhaustion [of three_offline_manager ?t ?p 0 "[]"]
  have c: "fst (generate_summary_with_fallback three_offline_manager ?t ?p (0, []))
             = Inl (RuntimeError all_adapters_unavailable)"
    by blast
  from a b c show ?thesis by blast
qed

text \<open>
  With the three adapters \<open>openai\<close>, \<open>local_model\<close> and \<open>baidu\<close> registered and all
  unavailable, each is probed once and the error's message names none of them.
\<close>

theorem exhaustion_message_counterexample:
  "generate_summary_with_fallback three_offline_manager [20250, 35758] [123, 125] (0, [])
     = (Inl (RuntimeError all_adapters_unavailable), 3,
        [IsAvailable (ascii ''openai''), IsAvailable (ascii ''local_model''),
         IsAvailable (ascii ''baidu'')])
   \<and> \<not> substr (ascii ''openai'') all_adapters_unavailable
   \<and> \<not> substr (ascii ''local_model'') all_adapters_unavailable
   \<and> \<not> substr (ascii ''baidu'') all_adapters_unavailable"
  by (simp add: three_offline_manager_def offline_adapter_def generate_summary_with_fallback_def
      primary_attempt_def or_raise_def ascii_def all_adapters_unavailable_def)

text \<open>
  Claim C3. If the primary is absent (none designated, the empty name, or a name that is
  not registered), unavailable, or its \<open>generate_summary\<close> raised, the result is that of
  walking the fallback order from the state the primary left. When the names before
  \<open>n\<close> have produced no result, a name \<open>n\<close> that is not registered is skipped with no
  effect at all, an unavailable adapter is skipped after its probe, an available adapter
  that returns supplies the result of the whole call, and one that raises is logged with
  a warning and the walk goes on with the next name. Names whose adapters are absent,
  unavailable or raising produce no result.
\<close>

theorem fallback_walk:
  "((current_adapter m = None \<or> current_adapter m = Some []
       \<or> (\<exists>name. current_adapter m = Some name \<and> adapters m name = None))
      \<longrightarrow> generate_summary_with_fallback m t p (w, log)
            = or_raise (fallback_loop m t p (fallback_order m) (w, log)))
   \<and> (\<forall>name a w1.
         current_adapter m = Some name \<and> name \<noteq> [] \<and> adapters m name = Some a
         \<and> is_available a w = (False, w1)
         \<longrightarrow> generate_summary_with_fallback m t p (w, log)
               = or_raise (fallback_loop m t p (fallback_order m)
                             (w1, log @ [IsAvailable name])))
   \<and> (\<forall>name a w1 e w2.
         current_adapter m = Some name \<and> name \<noteq> [] \<and> adapters m name = Some a
         \<and> is_available a w = (True, w1) \<and> generate_summary a t p w1 = (Inl e, w2)
         \<longrightarrow> generate_summary_with_fallback m t p (w, log)
               = or_raise (fallback_loop m t p (fallback_order m)
                             (w2, log @ [IsAvailable name, Info (using_adapter @ name),
                                         GenerateSummary name,
                                         Warning (primary_failed @ str_of e)])))
   \<and> (\<forall>pre n post st1 w2 log2.
         fallback_loop m t p pre st1 = (None, w2, log2)
         \<longrightarrow> (adapters m n = None
               \<longrightarrow> fallback_loop m t p (pre @ n # post) st1
                     = fallback_loop m t p post (w2, log2))
           \<and> (\<forall>a w3. adapters m n = Some a \<and> is_available a w2 = (False, w3)
                 \<longrightarrow> fallback_loop m t p (pre @ n # post) st1
                       = fallback_loop m t p post (w3, log2 @ [IsAvailable n]))
           \<and> (\<forall>a w3 s w4. adapters m n = Some a \<and> is_available a w2 = (True, w3)
                   \<and> generate_summary a t p w3 = (Inr s, w4)
                 \<longrightarrow> or_raise (fallback_loop m t p (pre @ n # post) st1)
                       = (Inr s, w4,
                          log2 @ [IsAvailable n, Info (using_fallback @ n), GenerateSummary n]))
           \<and> (\<forall>a w3 e w4. adapters m n = Some a \<and> is_available a w2 = (True, w3)
                   \<and> generate_summary a t p w3 = (Inl e, w4)
                 \<longrightarrow> fallback_loop m t p (pre @ n # post) st1
                       = fallback_loop m t p post
                           (w4, log2 @ [IsAvailable n, Info (using_fallback @ n),
                                        GenerateSummary n,
                                        Warning (fallback_failed @ str_of e)])))
   \<and> (\<forall>pre st1.
         (\<forall>k \<in> set pre. \<forall>a. adapters m k = Some a \<longrightarrow> always_fails t p a)
         \<longrightarrow> fst (fallback_loop m t p pre st1) = None)"
proof -
  have absent: "generate_summary_with_fallback m t p (w, log)
            = or_raise (fallback_loop m t p (fallback_order m) (w, log))"
    if "current_adapter m = None \<or> current_adapter m = Some []
       \<or> (\<exists>name. current_adapter m = Some name \<and> adapters m name = None)"
    using primary_attempt_absent [OF that, of t p w log]
    by (simp add: generate_summary_with_fallback_def)
  have unavailable: "generate_summary_with_fallback m t p (w, log)
               = or_raise (fallback_loop m t p (fallback_order m)
                             (w1, log @ [IsAvailable name]))"
    if "current_adapter m = Some name" "name \<noteq> []" "adapters m name = Some a"
      "is_available a w = (False, w1)" for name a w1
    using primary_attempt_unavailable [OF that, of t p log]
    by (simp add: generate_summary_with_fallback_def)
  have raised: "generate_summary_with_fallback m t p (w, log)
               = or_raise (fallback_loop m t p (fallback_order m)
                             (w2, log @ [IsAvailable name, Info (using_adapter @ name),
                                         GenerateSummary name,
                                         Warning (primary_failed @ str_of e)]))"
    if "current_adapter m = Some name" "name \<noteq> []" "adapters m name = Some a"
      "is_available a w = (True, w1)" "generate_summary a t p w1 = (Inl e, w2)"
    for name a w1 e w2
    using primary_attempt_raises [OF that, of log]
    by (simp add: generate_summary_with_fallback_def)
  have walk: "fallback_loop m t p (pre @ n # post) st1
                = fallback_loop m t p (n # post) (w2, log2)"
    if "fallback_loop m t p pre st1 = (None, w2, log2)" for pre n post st1 w2 log2
    using that by (simp add: fallback_loop_append)
  have fails: "fst (fallback_loop m t p pre st1) = None"
    if "\<forall>k \<in> set pre. \<forall>a. adapters m k = Some a \<longrightarrow> always_fails t p a" for pre st1
    using that by (rule fallback_loop_all_fail)
  show ?thesis
  proof (intro conjI allI impI)
  qed (use absent unavailable raised fails in
        \<open>(blast | simp add: walk or_raise_def)+\<close>)
qed

theorem fallback_walk_witness:
  "generate_summary_with_fallback walk_manager [20250, 35758] [123, 125] (0, [])
     = (Inr [20250, 35758], 7,
        [IsAvailable (ascii ''openai''), Info (using_adapter @ ascii ''openai''),
         GenerateSummary (ascii ''openai''),
         Warning (primary_failed @ ascii ''timeout''),
         IsAvailable (ascii ''local_model''),
         IsAvailable (ascii ''backup''), Info (using_fallback @ ascii ''backup''),
         GenerateSummary (ascii ''backup''),
         Warning (fallback_failed @ ascii ''timeout''),
         IsAvailable (ascii ''baidu''), Info (using_fallback @ ascii ''baidu''),
         GenerateSummary (ascii ''baidu'')])"
proof -
  let ?t = "[20250, 35758] :: ustr" and ?p = "[123, 125] :: ustr"
  let ?log1 = "[IsAvailable (ascii ''openai''), Info (using_adapter @ ascii ''openai''),
         GenerateSummary (ascii ''openai''),
         Warning (primary_failed @ str_of (Exception (ascii ''timeout'')))]"
  let ?log2 = "?log1 @ [IsAvailable (ascii ''local_model''),
         IsAvailable (ascii ''backup''), Info (using_fallback @ ascii ''backup''),
         GenerateSummary (ascii ''backup''),
         Warning (fallback_failed @ ascii ''timeout'')]"
  note fw = fallback_walk [of walk_manager ?t ?p 0 "[]"]
  have primary: "current_adapter walk_manager = Some (ascii ''openai'')
      \<and> ascii ''openai'' \<noteq> []
      \<and> adapters walk_manager (ascii ''openai'') = Some raising_adapter
      \<and> is_available raising_adapter 0 = (True, 1)
      \<and> generate_summary raising_adapter ?t ?p 1 = (Inl (Exception (ascii ''timeout'')), 2)"
    by (simp add: walk_manager_def raising_adapter_def ascii_def)
  have routed:
    "generate_summary_with_fallback walk_manager ?t ?p (0, [])
       = or_raise (fallback_loop walk_manager ?t ?p (fallback_order walk_manager)
                     (2, [] @ ?log1))"
    by (rule fw [THEN conjunct2, THEN conjunct2, THEN conjunct1, rule_format, OF primary])
  have order: "fallback_order walk_manager
      = [ascii ''missing'', ascii ''local_model'', ascii ''backup''] @ ascii ''baidu'' # []"
    by (simp add: walk_manager_def)
  have pre: "fallback_loop walk_manager ?t ?p
               [ascii ''missing'', ascii ''local_model'', ascii ''backup''] (2, [] @ ?log1)
             = (None, 5, ?log2)"
    by (simp add: walk_manager_def raising_adapter_def offline_adapter_def ascii_def)
  have last: "adapters walk_manager (ascii ''baidu'') = Some echo_adapter
      \<and> is_available echo_adapter 5 = (True, 6)
      \<and> generate_summary echo_adapter ?t ?p 6 = (Inr ?t, 7)"
    by (simp add: walk_manager_def echo_adapter_def ascii_def)
  have
    "or_raise (fallback_loop walk_manager ?t ?p
                 ([ascii ''missing'', ascii ''local_model'', ascii ''backup'']
                    @ ascii ''baidu'' # []) (2, [] @ ?log1))
       = (Inr ?t, 7, ?log2 @ [IsAvailable (ascii ''baidu''),
                               Info (using_fallback @ ascii ''baidu''),
                               GenerateSummary (ascii ''baidu'')])"
    by (rule fw [THEN conjunct2, THEN conjunct2, THEN conjunct2, THEN conjunct1, rule_format,
          OF pre, THEN conjunct2, THEN conjunct2, THEN conjunct1, rule_format, OF last])
  with routed order show ?thesis by simp
qed

text \<open>
  Claim C9. If the primary's name is also in the fallback order and the primary's
  \<open>generate_summary\<close> raised, the walk does not leave the name out: once the names before
  it have produced no result, the same adapter is probed again and, if available, called a
  second time; the names after it are tried only if this second call raises or the adapter
  is then unavailable.
\<close>

theorem primary_probed_again_in_fallback:
  assumes "current_adapter m = Some name" and "name \<noteq> []"
    and "adapters m name = Some a"
    and "is_available a w = (True, w1)"
    and "generate_summary a t p w1 = (Inl e, w2)"
    and "fallback_order m = pre @ name # post"
    and "fallback_loop m t p pre
           (w2, log @ [IsAvailable name, Info (using_adapter @ name), GenerateSummary name,
                       Warning (primary_failed @ str_of e)])
         = (None, w3, log3)"
    and "is_available a w3 = (available, w4)"
  shows "generate_summary_with_fallback m t p (w, log) =
           (if available then
              (case generate_summary a t p w4 of
                 (Inr s, w5) \<Rightarrow>
                   (Inr s, w5,
                    log3 @ [IsAvailable name, Info (using_fallback @ name),
                            GenerateSummary name])
               | (Inl e', w5) \<Rightarrow>
                   or_raise (fallback_loop m t p post
                     (w5, log3 @ [IsAvailable name, Info (using_fallback @ name),
                                  GenerateSummary name,
                                  Warning (fallback_failed @ str_of e')])))
            else or_raise (fallback_loop m t p post (w4, log3 @ [IsAvailable name])))"
proof -
  have "generate_summary_with_fallback m t p (w, log)
          = or_raise (fallback_loop m t p (name # post) (w3, log3))"
    using primary_attempt_raises [OF assms(1-5), of log] assms(6,7)
    by (simp add: generate_summary_with_fallback_def fallback_loop_append)
  also have "\<dots> =
           (if available then
              (case generate_summary a t p w4 of
                 (Inr s, w5) \<Rightarrow>
                   (Inr s, w5,
                    log3 @ [IsAvailable name, Info (using_fallback @ name),
                            GenerateSummary name])
               | (Inl e', w5) \<Rightarrow>
                   or_raise (fallback_loop m t p post
                     (w5, log3 @ [IsAvailable name, Info (using_fallback @ name),
                                  GenerateSummary name,
                                  Warning (fallback_failed @ str_of e')])))
            else or_raise (fallback_loop m t p post (w4, log3 @ [IsAvailable name])))"
    using assms(3,8) by (simp add: or_raise_def split: prod.splits sum.splits)
  finally show ?thesis .
qed

theorem primary_probed_again_in_fallback_witness:
  "generate_summary_with_fallback demo_manager [20250, 35758] [123, 125] (0, [])
     = (Inr [20250, 35758], 5,
        [IsAvailable (ascii ''openai''), Info (using_adapter @ ascii ''openai''),
         GenerateSummary (ascii ''openai''),
         Warning (primary_failed @ ascii ''timeout''),
         IsAvailable (ascii ''local_model''),
         IsAvailable (ascii ''openai''), Info (using_fallback @ ascii ''openai''),
         GenerateSummary (ascii ''openai'')])"
proof -
  let ?t = "[20250, 35758] :: ustr" and ?p = "[123, 125] :: ustr"
  let ?log1 = "[IsAvailable (ascii ''openai''), Info (using_adapter @ ascii ''openai''),
         GenerateSummary (ascii ''openai''),
         Warning (primary_failed @ str_of (Exception (ascii ''timeout'')))]"
  have 1: "current_adapter demo_manager = Some (ascii ''openai'')"
    by (simp add: demo_manager_def)
  have 2: "ascii ''openai'' \<noteq> []" by (simp add: ascii_def)
  have 3: "adapters demo_manager (ascii ''openai'') = Some flaky_adapter"
    by (simp add: demo_manager_def ascii_def)
  have 4: "is_available flaky_adapter 0 = (True, 1)" by (simp add: flaky_adapter_def)
  have 5: "generate_summary flaky_adapter ?t ?p 1 = (Inl (Exception (ascii ''timeout'')), 2)"
    by (simp add: flaky_adapter_def)
  have 6: "fallback_order demo_manager
             = [ascii ''missing'', ascii ''local_model''] @ ascii ''openai'' # [ascii ''baidu'']"
    by (simp add: demo_manager_def)
  have 7: "fallback_loop demo_manager ?t ?p [ascii ''missing'', ascii ''local_model'']
             (2, [] @ [IsAvailable (ascii ''openai''), Info (using_adapter @ ascii ''openai''),
                  GenerateSummary (ascii ''openai''),
                  Warning (primary_failed @ str_of (Exception (ascii ''timeout'')))])
           = (None, 3, ?log1 @ [IsAvailable (ascii ''local_model'')])"
    by (simp add: demo_manager_def offline_adapter_def ascii_def)
  have 8: "is_available flaky_adapter 3 = (True, 4)" by (simp add: flaky_adapter_def)
  from primary_probed_again_in_fallback [OF 1 2 3 4 5 6 7 8]
  show ?thesis by (simp add: flaky_adapter_def)
qed

section \<open>Degradation templates\<close>

lemma split_on_nonempty: "split_on sep s \<noteq> []"
  by (induction s) (auto split: list.splits)

lemma length_split_on: "length (split_on sep s) = Suc (count_list s sep)"
  by (induction s) (auto split: list.splits simp: split_on_nonempty)

lemma split_on_no_sep: "l \<in> set (split_on sep s) \<Longrightarrow> sep \<notin> set l"
  by (induction s arbitrary: l) (auto split: list.splits if_splits)

lemma str_nat_digit: "n < 10 \<Longrightarrow> str_nat n = [48 + n]"
  by (simp add: str_nat.simps)

lemma length_take_split_on:
  "length (take k (split_on sep s)) = min k (Suc (count_list s sep))"
  by (simp add: length_split_on min.commute)

lemma map_snd_enumerate_fun: "map (\<lambda>x. f (snd x)) (enumerate n xs) = map f xs"
  by (induction xs arbitrary: n) auto

lemma map_fst_enumerate_fun:
  "map (\<lambda>x. f (fst x)) (enumerate n xs) = map f [n..<n + length xs]"
proof -
  have "map (\<lambda>x. f (fst x)) (enumerate n xs) = map f (map fst (enumerate n xs))"
    by (simp only: map_map comp_def)
  then show ?thesis by (simp only: map_fst_enumerate)
qed

lemma map_const_enumerate: "map (\<lambda>x. c) xs = replicate (length xs) c"
  by (induction xs) auto

lemma template_key_points:
  fixes topic :: ustr and lines :: "ustr list"
  defines "kps \<equiv> map (\<lambda>(i, line).
           \<lparr>kp_topic = Some (topic @ str_nat (i + 1)),
            kp_content = Some line,
            kp_participants = Some [unknown],
            kp_timestamp = Some unknown,
            kp_importance = None,
            kp_category = None\<rparr>) (enumerate 0 lines)"
  shows "length kps = length lines"
    and "map kp_content kps = map Some lines"
    and "map kp_topic kps = map (\<lambda>i. Some (topic @ str_nat (Suc i))) [0..<length lines]"
    and "map kp_participants kps = replicate (length lines) (Some [unknown])"
    and "map kp_timestamp kps = replicate (length lines) (Some unknown)"
    and "map kp_importance kps = replicate (length lines) None"
    and "map kp_category kps = replicate (length lines) None"
proof -
  show "length kps = length lines" by (simp add: kps_def)
  show "map kp_content kps = map Some lines"
    using map_snd_enumerate_fun [of Some 0 lines]
    by (simp add: kps_def case_prod_unfold comp_def)
  show "map kp_topic kps = map (\<lambda>i. Some (topic @ str_nat (Suc i))) [0..<length lines]"
    using map_fst_enumerate_fun [of "\<lambda>i. Some (topic @ str_nat (Suc i))" 0 lines]
    by (simp add: kps_def case_prod_unfold comp_def)
  show "map kp_participants kps = replicate (length lines) (Some [unknown])"
    using map_const_enumerate [of "Some [unknown]" "enumerate 0 lines"]
    by (simp add: kps_def case_prod_unfold comp_def)
  show "map kp_timestamp kps = replicate (length lines) (Some unknown)"
    using map_const_enumerate [of "Some unknown" "enumerate 0 lines"]
    by (simp add: kps_def case_prod_unfold comp_def)
  show "map kp_importance kps = replicate (length lines) None"
    using map_const_enumerate [of "None :: ustr option" "enumerate 0 lines"]
    by (simp add: kps_def case_prod_unfold comp_def)
  show "map kp_category kps = replicate (length lines) None"
    using map_const_enumerate [of "None :: ustr option" "enumerate 0 lines"]
    by (simp add: kps_def case_prod_unfold comp_def)
qed

lemma split_on_no_newline: "sep \<notin> set s \<Longrightarrow> split_on sep s = [s]"
  by (induction s) auto

lemma template_is_degraded_document:
  fixes topic :: ustr and transcript :: ustr and n :: nat
  defines "lines \<equiv> take n (split_on 10 transcript)"
  assumes "s_title d \<noteq> None" and "s_overview d \<noteq> None"
    and "s_key_points d = Some (map (\<lambda>(i, line).
           \<lparr>kp_topic = Some (topic @ str_nat (i + 1)),
            kp_content = Some line,
            kp_participants = Some [unknown],
            kp_timestamp = Some unknown,
            kp_importance = None,
            kp_category = None\<rparr>) (enumerate 0 lines))"
    and "s_decisions d = Some []" and "s_action_items d = Some []"
    and "s_risks d = Some []" and "s_opportunities d = Some []"
  shows "degraded_document n topic transcript d"
proof -
  have len: "length lines = min n (Suc (count_list transcript 10))"
    by (simp add: lines_def length_split_on min.commute)
  show ?thesis
    unfolding degraded_document_def
    using assms(2-) template_key_points [of topic lines] len
    by (simp add: lines_def)
qed

text \<open>
  Claim C6, as amended. For every transcript, the empty one and one without newlines
  included, each family's template returns (the functions are total, nothing in them can
  raise) a document with all seven keys, key points made from the first 5 (OpenAI),
  3 (local model) or 4 (Baidu) lines, and empty decisions, action items, risks and
  opportunities. The title is the family's fixed marker; the overview is a fixed marker
  for the local-model and Baidu families, while the OpenAI overview states the number of
  lines used, between 1 and 5.
\<close>

theorem degradation_templates:
  "degraded_document 5 [35752, 35770, 28857] t (create_fallback_summary t)
   \<and> s_title (create_fallback_summary t) = Some openai_fallback_title
   \<and> s_overview (create_fallback_summary t)
       = Some ([20250, 35758, 21253, 21547] @ str_nat (min 5 (Suc (count_list t 10)))
               @ [20010, 20027, 35201, 35752, 35770, 28857])
   \<and> degraded_document 3 [35201, 28857] t (create_local_fallback_summary t)
   \<and> s_title (create_local_fallback_summary t) = Some local_fallback_title
   \<and> s_overview (create_local_fallback_summary t) = Some local_fallback_overview
   \<and> degraded_document 4 [20851, 38190, 35752, 35770] t (create_baidu_fallback_summary t)
   \<and> s_title (create_baidu_fallback_summary t) = Some baidu_fallback_title
   \<and> s_overview (create_baidu_fallback_summary t) = Some baidu_fallback_overview"
proof -
  have "degraded_document 5 [35752, 35770, 28857] t (create_fallback_summary t)"
    by (rule template_is_degraded_document) (simp_all add: create_fallback_summary_def Let_def)
  moreover have "degraded_document 3 [35201, 28857] t (create_local_fallback_summary t)"
    by (rule template_is_degraded_document)
       (simp_all add: create_local_fallback_summary_def Let_def)
  moreover have
    "degraded_document 4 [20851, 38190, 35752, 35770] t (create_baidu_fallback_summary t)"
    by (rule template_is_degraded_document)
       (simp_all add: create_baidu_fallback_summary_def Let_def)
  moreover have "s_title (create_fallback_summary t) = Some openai_fallback_title"
    "s_overview (create_fallback_summary t)
       = Some ([20250, 35758, 21253, 21547] @ str_nat (min 5 (Suc (count_list t 10)))
               @ [20010, 20027, 35201, 35752, 35770, 28857])"
    by (simp_all add: create_fallback_summary_def Let_def length_split_on min.commute)
  moreover have "s_title (create_local_fallback_summary t) = Some local_fallback_title"
    "s_overview (create_local_fallback_summary t) = Some local_fallback_overview"
    by (simp_all add: create_local_fallback_summary_def Let_def)
  moreover have "s_title (create_baidu_fallback_summary t) = Some baidu_fallback_title"
    "s_overview (create_baidu_fallback_summary t) = Some baidu_fallback_overview"
    by (simp_all add: create_baidu_fallback_summary_def Let_def)
  ultimately show ?thesis by blast
qed

theorem degradation_templates_witness:
  "degraded_document 5 [35752, 35770, 28857] [] (create_fallback_summary [])
   \<and> s_key_points (create_fallback_summary [])
       = Some [\<lparr>kp_topic = Some [35752, 35770, 28857, 49], kp_content = Some [],
                 kp_participants = Some [unknown], kp_timestamp = Some unknown,
                 kp_importance = None, kp_category = None\<rparr>]
   \<and> degraded_document 3 [35201, 28857] [104, 105] (create_local_fallback_summary [104, 105])
   \<and> map kp_content (the (s_key_points (create_local_fallback_summary [104, 105])))
       = [Some [104, 105]]"
proof -
  have "s_key_points (create_fallback_summary [])
       = Some [\<lparr>kp_topic = Some [35752, 35770, 28857, 49], kp_content = Some [],
                 kp_participants = Some [unknown], kp_timestamp = Some unknown,
                 kp_importance = None, kp_category = None\<rparr>]"
    by (simp add: create_fallback_summary_def str_nat_digit)
  moreover have "map kp_content (the (s_key_points (create_local_fallback_summary [104, 105])))
       = [Some [104, 105]]"
    by (simp add: create_local_fallback_summary_def)
  ultimately show ?thesis
    using degradation_templates [of "[]"] degradation_templates [of "[104, 105]"]
    by blast
qed

text \<open>The OpenAI overview is not one fixed string: the empty transcript gives "1", a
  transcript of two lines gives "2".\<close>

theorem openai_overview_counterexample:
  "s_overview (create_fallback_summary [])
     = Some ([20250, 35758, 21253, 21547] @ [49] @ [20010, 20027, 35201, 35752, 35770, 28857])
   \<and> s_overview (create_fallback_summary [97, 10, 98])
     = Some ([20250, 35758, 21253, 21547] @ [50] @ [20010, 20027, 35201, 35752, 35770, 28857])
   \<and> s_overview (create_fallback_summary []) \<noteq> s_overview (create_fallback_summary [97, 10, 98])"
  by (simp add: create_fallback_summary_def Let_def str_nat_digit)

section \<open>Keyword extraction\<close>

lemma findall_from_chars:
  "w \<in> set (findall_from is_word word s) \<Longrightarrow> \<forall>c \<in> set word. is_word c
   \<Longrightarrow> w \<noteq> [] \<and> (\<forall>c \<in> set w. is_word c)"
  by (induction is_word word s rule: findall_from.induct) (auto split: if_splits)

lemma findall_words_chars:
  "w \<in> set (findall_words is_word s) \<Longrightarrow> w \<noteq> [] \<and> (\<forall>c \<in> set w. is_word c)"
  using findall_from_chars [of w is_word "[]" s] by (simp add: findall_words_def)












section \<open>Post-processing\<close>

lemma tags_distinct: "high \<noteq> medium" "high \<noteq> low" "medium \<noteq> low"
  by (simp_all add: high_def medium_def low_def ascii_def)

lemma importance_score_eq:
  "importance_score context decision =
     (if \<exists>t. meeting_templates (meeting_type context) = Some t
            \<and> (\<exists>pattern \<in> set (decision_patterns t).
                  substr pattern (case d_content decision of None \<Rightarrow> [] | Some c \<Rightarrow> c))
      then 2 else 0)
   + (if \<exists>word \<in> set high_impact_words.
           substr word (case d_content decision of None \<Rightarrow> [] | Some c \<Rightarrow> c)
      then 1 else 0)"
  by (cases "meeting_templates (meeting_type context)")
     (simp_all add: importance_score_def Let_def any_in_iff)

lemma importance_score_range:
  "0 \<le> importance_score context decision \<and> importance_score context decision \<le> 3"
  by (simp add: importance_score_eq)

lemma importance_score_unknown_type:
  "meeting_templates (meeting_type context) = None \<Longrightarrow> importance_score context decision \<le> 1"
  by (simp add: importance_score_eq)

lemma meeting_templates_None:
  "mt \<notin> {ascii ''project_review'', ascii ''weekly_meeting'', ascii ''strategic_planning''}
   \<Longrightarrow> meeting_templates mt = None"
  by (simp add: meeting_templates_def)

lemma identify_loop_eq:
  "identify_loop context ds kd =
     (map (\<lambda>d. d\<lparr>d_urgency := Some (if importance_score context d \<ge> 2 then high
                                     else if importance_score context d = 1 then medium
                                     else low)\<rparr>) ds,
      kd @ map (\<lambda>d. d\<lparr>d_urgency := Some high\<rparr>)
             (filter (\<lambda>d. importance_score context d \<ge> 2) ds))"
proof (induction ds arbitrary: kd)
  case Nil
  then show ?case by simp
next
  case (Cons d ds)
  have range: "0 \<le> importance_score context d" by (simp add: importance_score_range)
  consider "importance_score context d \<ge> 2" | "importance_score context d = 1"
    | "importance_score context d = 0"
    using range by linarith
  then show ?case
  proof cases
    case 1
    then show ?thesis by (simp add: Cons.IH Let_def)
  next
    case 2
    then show ?thesis by (simp add: Cons.IH Let_def)
  next
    case 3
    then show ?thesis by (simp add: Cons.IH Let_def)
  qed
qed

lemma identify_key_decisions_decisions:
  "s_decisions (identify_key_decisions s context) =
     map_option (map (\<lambda>d. d\<lparr>d_urgency := Some (if importance_score context d \<ge> 2 then high
                                     else if importance_score context d = 1 then medium
                                     else low)\<rparr>)) (s_decisions s)"
  by (cases "s_decisions s") (simp_all add: identify_key_decisions_def identify_loop_eq Let_def)

lemma identify_key_decisions_key_decisions:
  "s_key_decisions (identify_key_decisions s context) =
     (let kd = filter (\<lambda>d. importance_score context d \<ge> 2)
                 (case s_decisions s of None \<Rightarrow> [] | Some ds \<Rightarrow> ds)
      in if kd = [] then s_key_decisions s
         else Some (take 3 (map (\<lambda>d. d\<lparr>d_urgency := Some high\<rparr>) kd)))"
  by (cases "s_decisions s") (simp_all add: identify_key_decisions_def identify_loop_eq Let_def)

lemma identify_key_decisions_other:
  "s_action_items (identify_key_decisions s context) = s_action_items s"
  "s_key_points (identify_key_decisions s context) = s_key_points s"
  by (simp_all add: identify_key_decisions_def Let_def split: prod.splits)

lemma post_process_summary_decisions:
  "s_decisions (post_process_summary s context) =
     map_option (map (\<lambda>d. d\<lparr>d_urgency := Some (if importance_score context d \<ge> 2 then high
                                     else if importance_score context d = 1 then medium
                                     else low)\<rparr>)) (s_decisions s)"
  by (simp add: post_process_summary_def Let_def identify_key_decisions_decisions
      add_time_sensitivity_def adjust_priority_by_meeting_type_def)

lemma post_process_summary_key_decisions:
  "s_key_decisions (post_process_summary s context) =
     (let kd = filter (\<lambda>d. importance_score context d \<ge> 2)
                 (case s_decisions s of None \<Rightarrow> [] | Some ds \<Rightarrow> ds)
      in if kd = [] then s_key_decisions s
         else Some (take 3 (map (\<lambda>d. d\<lparr>d_urgency := Some high\<rparr>) kd)))"
  by (simp add: post_process_summary_def Let_def identify_key_decisions_key_decisions
      add_time_sensitivity_def adjust_priority_by_meeting_type_def)

lemma post_process_summary_action_items:
  "s_action_items (post_process_summary s context) =
     map_option (map time_sensitivity) (s_action_items s)"
  by (simp add: post_process_summary_def Let_def identify_key_decisions_other
      add_time_sensitivity_def adjust_priority_by_meeting_type_def)

lemma shortlist_member:
  assumes "P d" and "length (filter P pre) < 3"
  shows "f d \<in> set (take 3 (map f (filter P (pre @ d # post))))"
proof -
  let ?xs = "map f (filter P (pre @ d # post))"
  let ?i = "length (filter P pre)"
  have xs: "?xs = map f (filter P pre) @ f d # map f (filter P post)"
    using assms(1) by simp
  have "?xs ! ?i = f d"
    by (simp only: xs) (simp add: nth_append)
  moreover have "?i < length (take 3 ?xs)"
    using assms(2) by (simp only: xs) simp
  moreover have "take 3 ?xs ! ?i = ?xs ! ?i"
    using assms(2) by (simp only: nth_take)
  ultimately show ?thesis
    by (metis nth_mem)
qed

text \<open>
  Claim C5. For every decision, post-processing computes a score: 2 if the content
  contains a decision pattern of the context's meeting type, plus 1 if it contains one of
  the seven high-impact words. A score of 2 or more tags the decision's urgency high, a
  score of 1 medium, a score of 0 low; the decisions tagged high, in the order found and
  at most three, are stored as \<open>key_decisions\<close> (when there is none the key is not
  written). So a decision scoring 2 or more with fewer than three such decisions before it
  is in \<open>key_decisions\<close>. The content "we decide to approve this budget" under
  \<open>strategic_planning\<close> scores 3.
\<close>

theorem decision_scoring:
  fixes s :: summary and ctx :: meeting_context
  defines "score \<equiv> importance_score ctx"
  defines "tag \<equiv> \<lambda>d. d\<lparr>d_urgency := Some (if score d \<ge> 2 then high
                                           else if score d = 1 then medium else low)\<rparr>"
  defines "content \<equiv> \<lambda>d. case d_content d of None \<Rightarrow> [] | Some c \<Rightarrow> c"
  shows
    "score d =
       (if \<exists>t. meeting_templates (meeting_type ctx) = Some t
              \<and> (\<exists>pattern \<in> set (decision_patterns t). substr pattern (content d))
        then 2 else 0)
     + (if \<exists>word \<in> set high_impact_words. substr word (content d) then 1 else 0)
     \<and> s_decisions (post_process_summary s ctx) = map_option (map tag) (s_decisions s)
     \<and> s_key_decisions (post_process_summary s ctx) =
         (let shortlist = filter (\<lambda>d. score d \<ge> 2)
                            (case s_decisions s of None \<Rightarrow> [] | Some ds \<Rightarrow> ds)
          in if shortlist = [] then s_key_decisions s
             else Some (take 3 (map tag shortlist)))
     \<and> (\<forall>pre post. s_decisions s = Some (pre @ d # post) \<and> score d \<ge> 2
           \<and> length (filter (\<lambda>d. score d \<ge> 2) pre) < 3
           \<longrightarrow> d_urgency (tag d) = Some high
               \<and> (\<exists>kd. s_key_decisions (post_process_summary s ctx) = Some kd
                        \<and> tag d \<in> set kd))
     \<and> (meeting_type ctx = ascii ''strategic_planning''
          \<and> d_content d = Some [25105, 20204, 20915, 23450, 25209, 20934, 35813, 39044, 31639]
          \<longrightarrow> score d = 3)"
proof -
  have 1: "score d =
       (if \<exists>t. meeting_templates (meeting_type ctx) = Some t
              \<and> (\<exists>pattern \<in> set (decision_patterns t). substr pattern (content d))
        then 2 else 0)
     + (if \<exists>word \<in> set high_impact_words. substr word (content d) then 1 else 0)"
    unfolding score_def content_def by (rule importance_score_eq)
  have 2: "s_decisions (post_process_summary s ctx) = map_option (map tag) (s_decisions s)"
    unfolding score_def tag_def by (rule post_process_summary_decisions)
  have tag_high: "map tag (filter (\<lambda>d. score d \<ge> 2) ds)
                    = map (\<lambda>d. d\<lparr>d_urgency := Some high\<rparr>) (filter (\<lambda>d. score d \<ge> 2) ds)"
    for ds
    by (rule map_cong) (simp_all add: tag_def)
  have 3: "s_key_decisions (post_process_summary s ctx) =
         (let shortlist = filter (\<lambda>d. score d \<ge> 2)
                            (case s_decisions s of None \<Rightarrow> [] | Some ds \<Rightarrow> ds)
          in if shortlist = [] then s_key_decisions s
             else Some (take 3 (map tag shortlist)))"
    unfolding Let_def tag_high
    using post_process_summary_key_decisions [of s ctx]
    by (simp add: score_def Let_def)
  have 4: "d_urgency (tag d) = Some high
               \<and> (\<exists>kd. s_key_decisions (post_process_summary s ctx) = Some kd
                        \<and> tag d \<in> set kd)"
    if "s_decisions s = Some (pre @ d # post)" "score d \<ge> 2"
      "length (filter (\<lambda>d. score d \<ge> 2) pre) < 3" for pre post
  proof -
    have "tag d \<in> set (take 3 (map tag (filter (\<lambda>d. score d \<ge> 2) (pre @ d # post))))"
      using that(2,3) by (rule shortlist_member)
    moreover have "filter (\<lambda>d. score d \<ge> 2) (pre @ d # post) \<noteq> []"
      using that(2) by simp
    ultimately show ?thesis
      using that(1,2) by (simp add: 3 Let_def tag_def del: filter_append filter.simps)
  qed
  have 5: "score d = 3"
    if "meeting_type ctx = ascii ''strategic_planning''"
      "d_content d = Some [25105, 20204, 20915, 23450, 25209, 20934, 35813, 39044, 31639]"
    using that
    by (simp add: score_def importance_score_def Let_def meeting_templates_def ascii_def
        any_in_def high_impact_words_def)
  from 1 2 3 4 5 show ?thesis by blast
qed

theorem decision_scoring_witness:
  "importance_score (context_of_type (ascii ''strategic_planning'')) budget_decision = 3
   \<and> s_decisions (post_process_summary (empty_summary\<lparr>s_decisions := Some [budget_decision]\<rparr>)
                   (context_of_type (ascii ''strategic_planning'')))
       = Some [budget_decision\<lparr>d_urgency := Some high\<rparr>]
   \<and> s_key_decisions (post_process_summary (empty_summary\<lparr>s_decisions := Some [budget_decision]\<rparr>)
                       (context_of_type (ascii ''strategic_planning'')))
       = Some [budget_decision\<lparr>d_urgency := Some high\<rparr>]"
proof -
  let ?ctx = "context_of_type (ascii ''strategic_planning'')"
  let ?s = "empty_summary\<lparr>s_decisions := Some [budget_decision]\<rparr>"
  note ds = decision_scoring [where d = budget_decision and ctx = ?ctx and s = ?s]
  have mt: "meeting_type ?ctx = ascii ''strategic_planning''
            \<and> d_content budget_decision
              = Some [25105, 20204, 20915, 23450, 25209, 20934, 35813, 39044, 31639]"
    by (simp add: context_of_type_def budget_decision_def)
  have score: "importance_score ?ctx budget_decision = 3"
    using ds mt by blast
  have dec: "s_decisions ?s = Some [budget_decision]" by simp
  from ds have "s_decisions (post_process_summary ?s ?ctx)
      = map_option (map (\<lambda>d. d\<lparr>d_urgency := Some (if importance_score ?ctx d \<ge> 2 then high
                                           else if importance_score ?ctx d = 1 then medium
                                           else low)\<rparr>)) (s_decisions ?s)"
    by blast
  then have a: "s_decisions (post_process_summary ?s ?ctx)
                  = Some [budget_decision\<lparr>d_urgency := Some high\<rparr>]"
    by (simp add: score)
  from ds have "s_key_decisions (post_process_summary ?s ?ctx) =
         (let shortlist = filter (\<lambda>d. importance_score ?ctx d \<ge> 2)
                            (case s_decisions ?s of None \<Rightarrow> [] | Some ds \<Rightarrow> ds)
          in if shortlist = [] then s_key_decisions ?s
             else Some (take 3 (map (\<lambda>d. d\<lparr>d_urgency := Some (if importance_score ?ctx d \<ge> 2
                 then high else if importance_score ?ctx d = 1 then medium else low)\<rparr>)
               shortlist)))"
    by blast
  then have b: "s_key_decisions (post_process_summary ?s ?ctx)
                  = Some [budget_decision\<lparr>d_urgency := Some high\<rparr>]"
    by (simp add: score)
  from score a b show ?thesis by blast
qed

lemma any_py_in_str: "any_py_in ws (PStr s) = Inr (\<exists>w \<in> set ws. substr w s)"
  by (induction ws) auto

text \<open>
  Claim C7. Post-processing maps every action item through the deadline test, which
  reads the deadline in this order: a string containing "this week" (U+672C U+5468),
  "tomorrow" or "today" sets the priority high; otherwise one containing "next week"
  (U+4E0B U+5468) or "end of month" sets it medium; any other non-empty string sets it low;
  an empty or missing deadline leaves the item, its priority included, as it was. A
  deadline that is truthy but whose membership test raises (a number, \<open>True\<close>) is caught
  and the priority is set to medium.
\<close>

theorem deadline_priority:
  fixes a :: action_item and dl :: ustr
  defines "soon \<equiv> substr [26412, 21608] dl \<or> substr [26126, 22825] dl
                    \<or> substr [20170, 22825] dl"
  defines "later \<equiv> substr [19979, 21608] dl \<or> substr [26376, 24213] dl"
  shows
    "s_action_items (post_process_summary s ctx)
       = map_option (map time_sensitivity) (s_action_items s)
     \<and> (a_deadline a = Some (PStr dl) \<and> soon
          \<longrightarrow> time_sensitivity a = a\<lparr>a_priority := Some high\<rparr>)
     \<and> (a_deadline a = Some (PStr dl) \<and> \<not> soon \<and> later
          \<longrightarrow> time_sensitivity a = a\<lparr>a_priority := Some medium\<rparr>)
     \<and> (a_deadline a = Some (PStr dl) \<and> \<not> soon \<and> \<not> later \<and> dl \<noteq> []
          \<longrightarrow> time_sensitivity a = a\<lparr>a_priority := Some low\<rparr>)
     \<and> (a_deadline a = Some (PStr []) \<or> a_deadline a = None
          \<longrightarrow> time_sensitivity a = a)
     \<and> (\<forall>v e. a_deadline a = Some v \<and> truthy v \<and> py_in [26412, 21608] v = Inl e
          \<longrightarrow> time_sensitivity a = a\<lparr>a_priority := Some medium\<rparr>)"
proof -
  have nonempty: "dl \<noteq> []" if "soon \<or> later"
    using that unfolding soon_def later_def by auto
  have 1: "s_action_items (post_process_summary s ctx)
       = map_option (map time_sensitivity) (s_action_items s)"
    by (rule post_process_summary_action_items)
  have 2: "time_sensitivity a = a\<lparr>a_priority := Some high\<rparr>"
    if "a_deadline a = Some (PStr dl)" soon
    using that nonempty
    by (simp add: time_sensitivity_def any_py_in_str soon_def)
  have 3: "time_sensitivity a = a\<lparr>a_priority := Some medium\<rparr>"
    if "a_deadline a = Some (PStr dl)" "\<not> soon" later
    using that nonempty
    by (simp add: time_sensitivity_def any_py_in_str soon_def later_def)
  have 4: "time_sensitivity a = a\<lparr>a_priority := Some low\<rparr>"
    if "a_deadline a = Some (PStr dl)" "\<not> soon" "\<not> later" "dl \<noteq> []"
    using that
    by (simp add: time_sensitivity_def any_py_in_str soon_def later_def)
  have 5: "time_sensitivity a = a"
    if "a_deadline a = Some (PStr []) \<or> a_deadline a = None"
    using that by (auto simp: time_sensitivity_def)
  have 6: "time_sensitivity a = a\<lparr>a_priority := Some medium\<rparr>"
    if "a_deadline a = Some v" "truthy v" "py_in [26412, 21608] v = Inl e" for v e
    using that by (simp add: time_sensitivity_def)
  from 1 2 3 4 5 6 show ?thesis by blast
qed

theorem deadline_priority_witness:
  "time_sensitivity (action_due (PStr [26412, 21608, 20116]))
     = (action_due (PStr [26412, 21608, 20116]))\<lparr>a_priority := Some high\<rparr>
   \<and> time_sensitivity (action_due (PStr [19979, 21608]))
     = (action_due (PStr [19979, 21608]))\<lparr>a_priority := Some medium\<rparr>
   \<and> time_sensitivity (action_due (PStr [51, 26376, 49, 26085]))
     = (action_due (PStr [51, 26376, 49, 26085]))\<lparr>a_priority := Some low\<rparr>
   \<and> time_sensitivity (action_due (PStr [])) = action_due (PStr [])
   \<and> a_priority (time_sensitivity (action_due (PStr []))) = None
   \<and> time_sensitivity (action_due (PInt 5)) = (action_due (PInt 5))\<lparr>a_priority := Some medium\<rparr>"
proof -
  have a: "time_sensitivity (action_due (PStr [26412, 21608, 20116]))
             = (action_due (PStr [26412, 21608, 20116]))\<lparr>a_priority := Some high\<rparr>"
    using deadline_priority [where a = "action_due (PStr [26412, 21608, 20116])"
        and dl = "[26412, 21608, 20116]"]
    by (simp add: action_due_def)
  have b: "time_sensitivity (action_due (PStr [19979, 21608]))
             = (action_due (PStr [19979, 21608]))\<lparr>a_priority := Some medium\<rparr>"
    using deadline_priority [where a = "action_due (PStr [19979, 21608])"
        and dl = "[19979, 21608]"]
    by (simp add: action_due_def)
  have c: "time_sensitivity (action_due (PStr [51, 26376, 49, 26085]))
             = (action_due (PStr [51, 26376, 49, 26085]))\<lparr>a_priority := Some low\<rparr>"
    using deadline_priority [where a = "action_due (PStr [51, 26376, 49, 26085])"
        and dl = "[51, 26376, 49, 26085]"]
    by (simp add: action_due_def)
  have d: "time_sensitivity (action_due (PStr [])) = action_due (PStr [])"
    using deadline_priority [where a = "action_due (PStr [])" and dl = "[]"]
    by (simp add: action_due_def)
  then have d': "a_priority (time_sensitivity (action_due (PStr []))) = None"
    by (simp add: action_due_def)
  have raises: "a_deadline (action_due (PInt 5)) = Some (PInt 5) \<and> truthy (PInt 5)
      \<and> py_in [26412, 21608] (PInt 5)
          = Inl (TypeError (ascii ''argument of type '' @ [39] @ ascii ''int'' @ [39]
                            @ ascii '' is not iterable''))"
    by (simp add: action_due_def)
  have e: "time_sensitivity (action_due (PInt 5))
             = (action_due (PInt 5))\<lparr>a_priority := Some medium\<rparr>"
    using deadline_priority [where a = "action_due (PInt 5)" and dl = "[]"] raises
    by blast
  from a b c d d' e show ?thesis by blast
qed

text \<open>
  Claim C10. When the context's meeting type is none of \<open>project_review\<close>,
  \<open>weekly_meeting\<close> and \<open>strategic_planning\<close> (as \<open>general_meeting\<close>), no decision
  scores more than 1; every decision of the post-processed summary is tagged medium or
  low, never high, and \<open>key_decisions\<close> is left as it was: post-processing does not add
  the key.
\<close>

theorem unknown_meeting_type_never_high:
  assumes "meeting_type ctx \<notin> {ascii ''project_review'', ascii ''weekly_meeting'',
                                 ascii ''strategic_planning''}"
  shows "importance_score ctx d \<le> 1
       \<and> (\<forall>ds. s_decisions (post_process_summary s ctx) = Some ds
             \<longrightarrow> (\<forall>d \<in> set ds. d_urgency d \<noteq> Some high
                               \<and> (d_urgency d = Some medium \<or> d_urgency d = Some low)))
       \<and> s_key_decisions (post_process_summary s ctx) = s_key_decisions s"
proof -
  from assms have none: "meeting_templates (meeting_type ctx) = None"
    by (rule meeting_templates_None)
  then have le: "importance_score ctx d \<le> 1" for d
    by (rule importance_score_unknown_type)
  have "d_urgency d' \<noteq> Some high \<and> (d_urgency d' = Some medium \<or> d_urgency d' = Some low)"
    if "s_decisions (post_process_summary s ctx) = Some ds" "d' \<in> set ds" for ds d'
  proof -
    from that(1) obtain ds0 where "s_decisions s = Some ds0"
      and ds: "ds = map (\<lambda>d. d\<lparr>d_urgency := Some (if importance_score ctx d \<ge> 2 then high
                                     else if importance_score ctx d = 1 then medium
                                     else low)\<rparr>) ds0"
      by (auto simp: post_process_summary_decisions)
    from that(2) ds obtain d0 where
      "d' = d0\<lparr>d_urgency := Some (if importance_score ctx d0 \<ge> 2 then high
                                     else if importance_score ctx d0 = 1 then medium
                                     else low)\<rparr>"
      by auto
    moreover have "\<not> importance_score ctx d0 \<ge> 2" using le [of d0] by simp
    ultimately show ?thesis
      using tags_distinct by auto
  qed
  moreover have "\<not> importance_score ctx x \<ge> 2" for x
    using le [of x] by simp
  then have "filter (\<lambda>d. importance_score ctx d \<ge> 2) ds = []" for ds
    by (simp add: filter_empty_conv)
  then have "s_key_decisions (post_process_summary s ctx) = s_key_decisions s"
    by (simp add: post_process_summary_key_decisions Let_def)
  ultimately show ?thesis using le by blast
qed

theorem unknown_meeting_type_never_high_witness:
  "importance_score (context_of_type (ascii ''general_meeting'')) budget_decision = 1
   \<and> s_decisions (post_process_summary (empty_summary\<lparr>s_decisions := Some [budget_decision]\<rparr>)
                   (context_of_type (ascii ''general_meeting'')))
       = Some [budget_decision\<lparr>d_urgency := Some medium\<rparr>]
   \<and> s_key_decisions (post_process_summary (empty_summary\<lparr>s_decisions := Some [budget_decision]\<rparr>)
                       (context_of_type (ascii ''general_meeting''))) = None"
proof -
  let ?ctx = "context_of_type (ascii ''general_meeting'')"
  let ?s = "empty_summary\<lparr>s_decisions := Some [budget_decision]\<rparr>"
  have mt: "meeting_type ?ctx \<notin> {ascii ''project_review'', ascii ''weekly_meeting'',
                                 ascii ''strategic_planning''}"
    by (simp add: context_of_type_def ascii_def)
  note w = unknown_meeting_type_never_high [OF mt, where d = budget_decision and s = ?s]
  have score: "importance_score ?ctx budget_decision = 1"
    by (simp add: importance_score_def Let_def meeting_templates_def context_of_type_def
        budget_decision_def ascii_def any_in_def high_impact_words_def)
  have a: "s_decisions (post_process_summary ?s ?ctx)
             = Some [budget_decision\<lparr>d_urgency := Some medium\<rparr>]"
    by (simp add: post_process_summary_decisions score)
  from w have "s_key_decisions (post_process_summary ?s ?ctx) = s_key_decisions ?s"
    by blast
  then have b: "s_key_decisions (post_process_summary ?s ?ctx) = None"
    by (simp add: empty_summary_def)
  from score a b show ?thesis by blast
qed

end
